theory Spec2Isabelle
  imports Main "HOL-Library.Word"
begin

section \<open>Data model of the maintenance commands (internal/flags)\<close>

type_synonym byte = "8 word"

text \<open>A Go \<open>error\<close> value: \<open>None\<close> is \<open>nil\<close>, \<open>Some m\<close> an error whose text is \<open>m\<close>.\<close>

type_synonym error = "string option"

text \<open>
  Modelled from the spec: the constants of \<open>utils.ReturnCode\<close> (package \<open>rpc/pkg/utils\<close>)
  that the maintenance handlers return. The spec gives them as pairwise different codes
  with \<open>Success = 0\<close>.
\<close>

datatype ReturnCode =
    Success
  | IncorrectCommandLineParameters
  | MissingOrIncorrectURL
  | MissingOrIncorrectPassword
  | MissingOrIncorrectNetworkMask
  | MissingOrIncorrectStaticIP
  | MissingOrIncorrectGateway
  | MissingOrIncorrectPrimaryDNS
  | MissingOrIncorrectSecondaryDNS
  | OSNetworkInterfacesLookupFailed
  | AMTConnectionFailed

record IPConfiguration =
  IpAddress :: string
  Netmask :: string
  Gateway :: string
  PrimaryDns :: string
  SecondaryDns :: string

record HostnameInfo =
  DnsSuffixOS :: string
  Hostname :: string

text \<open>
  The fields of the Go struct \<open>Flags\<close> that the maintenance handlers read or write.
  \<open>LocalConfig_Password\<close> is \<open>f.LocalConfig.Password\<close>.
\<close>

record Flags =
  commandLineArgs :: "string list"
  SubCommand :: string
  Password :: string
  URL :: string
  Local :: bool
  LocalConfig_Password :: string
  StaticPassword :: string
  IpConfiguration :: IPConfiguration
  HostnameInfo :: HostnameInfo

text \<open>\<open>net.Interface\<close>, \<open>net.Addr\<close> (an \<open>*net.IPNet\<close> or any other implementation) and
  the adapter settings reported by the management engine.\<close>

record Interface =
  Index :: int
  MTU :: int
  Name :: string
  HardwareAddr :: "byte list"
  IfFlags :: nat

datatype Addr = IPNet "byte list" "byte list" | OtherAddr string

record InterfaceSettings =
  DHCPEnabled :: bool
  DHCPMode :: string
  LinkStatus :: string
  IPAddress :: string
  MACAddress :: string

text \<open>
  What one run of a handler does to the outside world, in order: text written to the
  terminal, log lines, and calls of the external collaborators. \<open>Invoke n\<close> marks the
  call of the sub-command handler \<open>n\<close> by the dispatcher.
\<close>

datatype event =
    PrintMaintenanceUsage
  | PrintURLRequired
  | FlagOutput string
  | FlagUsage string
  | LogError string
  | Invoke string
  | Call_GetLANInterfaceSettings bool
  | Call_Interfaces
  | Call_InterfaceAddrs Interface
  | Call_GetOSDNSSuffix
  | Call_Hostname
  | Call_ReadPasswordFromUser

text \<open>The state a handler runs on: the \<open>Flags\<close> value and the effects so far.\<close>

record World =
  flags :: Flags
  trace :: "event list"

definition emit :: "event \<Rightarrow> World \<Rightarrow> World" where
  "emit e w = w\<lparr>trace := trace w @ [e]\<rparr>"

section \<open>Go's flag package: FlagSet.Parse with ContinueOnError\<close>

text \<open>
  A \<open>flag.Value\<close>: \<open>SetValue\<close> is its method \<open>Set\<close>, which may write into the
  \<open>Flags\<close> value it points to and may fail. A \<open>FlagSet\<close> is its name and its map
  \<open>formal\<close> of defined flags.
  Modelled from the spec: the flag sets are created (outside this file) with
  \<open>flag.ContinueOnError\<close>, so that \<open>Parse\<close> returns its error.
\<close>

record FlagValue =
  IsBoolFlag :: bool
  SetValue :: "string \<Rightarrow> Flags \<Rightarrow> error \<times> Flags"

record FlagSet =
  fsName :: string
  formal :: "string \<rightharpoonup> FlagValue"

definition lowerhex :: string where
  "lowerhex = ''0123456789abcdef''"

text \<open>
  \<open>strconv.Quote\<close>, the verb \<open>%q\<close>. Exact on ASCII. A byte from 0x80 on is written
  as a \<open>\x\<close> escape, which is what Go does for a byte that is not valid UTF-8; a
  printable rune beyond ASCII, which Go keeps as it is, comes out here as the escapes of
  its bytes. Neither form contains a dash, a colon or a newline, the only characters the
  classifier of \<open>syncip\<close> looks for.
\<close>

definition quoteByte :: "char \<Rightarrow> string" where
  "quoteByte c =
     (let n = (of_char c :: nat) in
      if c = CHR 0x22 \<or> c = CHR 0x5C then [CHR 0x5C, c]
      else if 0x20 \<le> n \<and> n < 0x7F then [c]
      else if n = 7 then [CHR 0x5C, CHR ''a'']
      else if n = 8 then [CHR 0x5C, CHR ''b'']
      else if n = 12 then [CHR 0x5C, CHR ''f'']
      else if n = 10 then [CHR 0x5C, CHR ''n'']
      else if n = 13 then [CHR 0x5C, CHR ''r'']
      else if n = 9 then [CHR 0x5C, CHR ''t'']
      else if n = 11 then [CHR 0x5C, CHR ''v'']
      else [CHR 0x5C, CHR ''x'', lowerhex ! (n div 16), lowerhex ! (n mod 16)])"

definition Quote :: "string \<Rightarrow> string" where
  "Quote s = CHR 0x22 # concat (map quoteByte s) @ [CHR 0x22]"

text \<open>\<open>FlagSet.failf\<close>: print the message, print the usage, return the error.\<close>

definition failf :: "FlagSet \<Rightarrow> string \<Rightarrow> World \<Rightarrow> World" where
  "failf fs msg w = emit (FlagUsage (fsName fs)) (emit (FlagOutput msg) w)"

definition ErrHelp :: string where
  "ErrHelp = ''flag: help requested''"

text \<open>The split of \<open>name=value\<close> at the first \<open>=\<close> after the first character.\<close>

definition splitNameValue :: "string \<Rightarrow> string \<times> bool \<times> string" where
  "splitNameValue name =
     (case name of
        [] \<Rightarrow> ([], False, [])
      | c # rest \<Rightarrow>
          if CHR ''='' \<in> set rest
          then (c # takeWhile (\<lambda>x. x \<noteq> CHR ''='') rest, True,
                tl (dropWhile (\<lambda>x. x \<noteq> CHR ''='') rest))
          else (name, False, []))"

text \<open>
  \<open>FlagSet.parseOne\<close>. The result is \<open>((seen, err), args', w')\<close>: the two values Go
  returns, the arguments left, and the world after the flag's \<open>Set\<close> and the output.
\<close>

definition setFlag ::
  "FlagSet \<Rightarrow> FlagValue \<Rightarrow> string \<Rightarrow> (string \<Rightarrow> string) \<Rightarrow> string list \<Rightarrow> World
     \<Rightarrow> (bool \<times> error) \<times> string list \<times> World" where
  "setFlag fs flag val msg rest w =
     (case SetValue flag val (flags w) of
        (Some err, f') \<Rightarrow>
          ((False, Some (msg err)), rest, failf fs (msg err) (w\<lparr>flags := f'\<rparr>))
      | (None, f') \<Rightarrow> ((True, None), rest, w\<lparr>flags := f'\<rparr>))"

definition parseOne ::
  "FlagSet \<Rightarrow> string list \<Rightarrow> World \<Rightarrow> (bool \<times> error) \<times> string list \<times> World" where
  "parseOne fs args w =
     (case args of
        [] \<Rightarrow> ((False, None), args, w)
      | s # rest \<Rightarrow>
          if length s < 2 \<or> hd s \<noteq> CHR ''-'' then ((False, None), args, w)
          else if s = ''--'' then ((False, None), rest, w)
          else
            let name0 = drop (if s ! 1 = CHR ''-'' then 2 else 1) s in
            if name0 = [] \<or> hd name0 = CHR ''-'' \<or> hd name0 = CHR ''=''
            then ((False, Some (''bad flag syntax: '' @ s)), args,
                  failf fs (''bad flag syntax: '' @ s) w)
            else
              (case splitNameValue name0 of (name, hasValue, val) \<Rightarrow>
                (case formal fs name of
                   None \<Rightarrow>
                     if name = ''help'' \<or> name = ''h''
                     then ((False, Some ErrHelp), rest, emit (FlagUsage (fsName fs)) w)
                     else ((False, Some (''flag provided but not defined: -'' @ name)), rest,
                           failf fs (''flag provided but not defined: -'' @ name) w)
                 | Some flag \<Rightarrow>
                     if IsBoolFlag flag then
                       (if hasValue
                        then setFlag fs flag val
                               (\<lambda>err. ''invalid boolean value '' @ Quote val @ '' for -'' @ name
                                        @ '': '' @ err) rest w
                        else setFlag fs flag ''true''
                               (\<lambda>err. ''invalid boolean flag '' @ name @ '': '' @ err) rest w)
                     else if \<not> hasValue \<and> rest = []
                     then ((False, Some (''flag needs an argument: -'' @ name)), rest,
                           failf fs (''flag needs an argument: -'' @ name) w)
                     else
                       (let v = (if hasValue then val else hd rest);
                            rest' = (if hasValue then rest else tl rest)
                        in setFlag fs flag v
                             (\<lambda>err. ''invalid value '' @ Quote v @ '' for flag -'' @ name
                                      @ '': '' @ err) rest' w))))"

text \<open>\<open>FlagSet.Parse\<close>: parse flags until an argument is not a flag, or one fails.\<close>

function Parse :: "FlagSet \<Rightarrow> string list \<Rightarrow> World \<Rightarrow> error \<times> World" where
  "Parse fs args w =
     (case parseOne fs args w of
        ((True, _), args', w') \<Rightarrow> Parse fs args' w'
      | ((False, err), _, w') \<Rightarrow> (err, w'))"
  by pat_completeness auto
termination
proof (relation "measure (\<lambda>(fs, args, w). length args)")
  show "wf (measure (\<lambda>(fs, args, w). length args))"
    by simp
next
  fix fs :: FlagSet and args args' :: "string list" and w w' :: World
    and r :: "bool \<times> error" and rest :: "string list \<times> World" and seen :: bool and e :: error
  assume "(r, rest) = parseOne fs args w" "(seen, e) = r" "seen = True" "(args', w') = rest"
  then have "parseOne fs args w = ((True, e), args', w')"
    by simp
  then have "length args' < length args"
    by (auto simp: parseOne_def setFlag_def Let_def
        split: list.splits if_splits option.splits prod.splits)
  then show "((fs, args', w'), fs, args, w) \<in> measure (\<lambda>(fs, args, w). length args)"
    by simp
qed

declare Parse.simps [simp del]

text \<open>\<open>FlagSet.Var\<close> (through \<open>Func\<close> and \<open>StringVar\<close>): defining a flag twice panics,
  as does a name that begins with a dash or contains \<open>=\<close>.\<close>

definition Var :: "FlagSet \<Rightarrow> FlagValue \<Rightarrow> string \<Rightarrow> FlagSet option" where
  "Var fs v name =
     (if (name \<noteq> [] \<and> hd name = CHR ''-'') \<or> CHR ''='' \<in> set name then None
      else if formal fs name \<noteq> None then None
      else Some (fs\<lparr>formal := (formal fs)(name \<mapsto> v)\<rparr>))"

section \<open>Go's net package: addresses as text\<close>

definition isDigit :: "char \<Rightarrow> bool" where
  "isDigit c = (48 \<le> (of_char c :: nat) \<and> (of_char c :: nat) \<le> 57)"

definition big :: nat where
  "big = 0xFFFFFF"

text \<open>\<open>dtoi\<close>: decimal to integer. The result is \<open>(number, characters consumed, ok)\<close>.\<close>

fun dtoi_loop :: "nat \<Rightarrow> nat \<Rightarrow> string \<Rightarrow> nat \<times> nat \<times> bool" where
  "dtoi_loop n i [] = (n, i, True)"
| "dtoi_loop n i (c # cs) =
     (if isDigit c
      then (let n' = n * 10 + (of_char c - 48)
            in if n' \<ge> big then (big, i, False) else dtoi_loop n' (i + 1) cs)
      else (n, i, True))"

definition dtoi :: "string \<Rightarrow> nat \<times> nat \<times> bool" where
  "dtoi s =
     (case dtoi_loop 0 0 s of
        (n, i, ok) \<Rightarrow> if \<not> ok then (n, i, False) else if i = 0 then (0, 0, False) else (n, i, True))"

text \<open>\<open>xtoi\<close>: hexadecimal to integer.\<close>

definition hexVal :: "char \<Rightarrow> nat option" where
  "hexVal c =
     (let n = (of_char c :: nat) in
      if 48 \<le> n \<and> n \<le> 57 then Some (n - 48)
      else if 97 \<le> n \<and> n \<le> 102 then Some (n - 97 + 10)
      else if 65 \<le> n \<and> n \<le> 70 then Some (n - 65 + 10)
      else None)"

fun xtoi_loop :: "nat \<Rightarrow> nat \<Rightarrow> string \<Rightarrow> nat \<times> nat \<times> bool" where
  "xtoi_loop n i [] = (n, i, True)"
| "xtoi_loop n i (c # cs) =
     (case hexVal c of
        None \<Rightarrow> (n, i, True)
      | Some d \<Rightarrow>
          (let n' = n * 16 + d
           in if n' \<ge> big then (0, i, False) else xtoi_loop n' (i + 1) cs))"

definition xtoi :: "string \<Rightarrow> nat \<times> nat \<times> bool" where
  "xtoi s =
     (case xtoi_loop 0 0 s of
        (n, i, ok) \<Rightarrow> if \<not> ok then (n, i, False) else if i = 0 then (0, i, False) else (n, i, True))"

definition v4InV6Prefix :: "byte list" where
  "v4InV6Prefix = [0, 0, 0, 0, 0, 0, 0, 0, 0, 0, 0xff, 0xff]"

text \<open>
  \<open>net.parseIPv4\<close>: four decimal octets separated by dots, none above 255, none with a
  leading zero. The first argument counts the octets still to read.
\<close>

fun parseIPv4_octets :: "nat \<Rightarrow> bool \<Rightarrow> string \<Rightarrow> byte list option" where
  "parseIPv4_octets 0 first s = (if s = [] then Some [] else None)"
| "parseIPv4_octets (Suc k) first s =
     (if s = [] then None
      else
        (case (if first then Some s else if hd s \<noteq> CHR ''.'' then None else Some (tl s)) of
           None \<Rightarrow> None
         | Some s1 \<Rightarrow>
             (case dtoi s1 of
                (n, c, ok) \<Rightarrow>
                  if \<not> ok \<or> n > 0xFF then None
                  else if c > 1 \<and> hd s1 = CHR ''0'' then None
                  else map_option ((#) (of_nat n)) (parseIPv4_octets k False (drop c s1)))))"

definition parseIPv4 :: "string \<Rightarrow> byte list option" where
  "parseIPv4 s =
     map_option (\<lambda>p. v4InV6Prefix @ p) (parseIPv4_octets (Suc (Suc (Suc (Suc 0)))) True s)"

text \<open>
  \<open>net.parseIPv6\<close>. The loop reads one hexadecimal group per round into \<open>bs\<close> and
  remembers where the ellipsis \<open>::\<close> stood; it ends with the bytes read, the ellipsis
  and the text left over, or with \<open>None\<close> for Go's \<open>return nil\<close>.
\<close>

function parseIPv6_loop ::
  "byte list \<Rightarrow> nat option \<Rightarrow> string \<Rightarrow> (byte list \<times> nat option \<times> string) option" where
  "parseIPv6_loop bs ellipsis s =
     (if \<not> length bs < 16 then Some (bs, ellipsis, s)
      else
        (case xtoi s of
           (n, c, ok) \<Rightarrow>
             if \<not> ok \<or> n > 0xFFFF then None
             else if c < length s \<and> s ! c = CHR ''.'' then
               (if ellipsis = None \<and> length bs \<noteq> 12 then None
                else if length bs + 4 > 16 then None
                else
                  (case parseIPv4 s of
                     None \<Rightarrow> None
                   | Some ip4 \<Rightarrow> Some (bs @ drop 12 ip4, ellipsis, [])))
             else
               (let bs' = bs @ [of_nat (n div 256), of_nat n]; s1 = drop c s in
                if s1 = [] then Some (bs', ellipsis, s1)
                else if hd s1 \<noteq> CHR '':'' \<or> length s1 = 1 then None
                else
                  (let s2 = tl s1 in
                   if hd s2 = CHR '':'' then
                     (if ellipsis \<noteq> None then None
                      else if tl s2 = [] then Some (bs', Some (length bs'), [])
                      else parseIPv6_loop bs' (Some (length bs')) (tl s2))
                   else parseIPv6_loop bs' ellipsis s2))))"
  by pat_completeness auto
termination
  by (relation "measure (\<lambda>(bs, e, s). 16 - length bs)") auto

declare parseIPv6_loop.simps [simp del]

definition parseIPv6 :: "string \<Rightarrow> byte list option" where
  "parseIPv6 s =
     (let lead = (length s \<ge> 2 \<and> s ! 0 = CHR '':'' \<and> s ! 1 = CHR '':'');
          s' = (if lead then drop 2 s else s);
          ellipsis = (if lead then Some 0 else None)
      in if lead \<and> s' = [] then Some (replicate 16 0)
         else
           (case parseIPv6_loop [] ellipsis s' of
              None \<Rightarrow> None
            | Some (bs, e, r) \<Rightarrow>
                if r \<noteq> [] then None
                else if length bs < 16 then
                  (case e of
                     None \<Rightarrow> None
                   | Some k \<Rightarrow> Some (take k bs @ replicate (16 - length bs) 0 @ drop k bs))
                else if e \<noteq> None then None
                else Some bs))"

text \<open>
  \<open>net.ParseIP\<close>, with the parsers of Go's package \<open>net\<close> above (\<open>parseIPv4\<close>,
  \<open>parseIPv6\<close>, \<open>dtoi\<close>, \<open>xtoi\<close>): the first dot or colon of the text decides between
  the IPv4 and the IPv6 parser; a text with neither is no address (\<open>nil\<close>, here
  \<open>None\<close>).
\<close>

definition ParseIP :: "string \<Rightarrow> byte list option" where
  "ParseIP s =
     (case List.find (\<lambda>c. c = CHR ''.'' \<or> c = CHR '':'') s of
        None \<Rightarrow> None
      | Some c \<Rightarrow> if c = CHR ''.'' then parseIPv4 s else parseIPv6 s)"

text \<open>\<open>IP.To4\<close>, \<open>IP.IsLoopback\<close> and \<open>IP.String\<close>.\<close>

definition To4 :: "byte list \<Rightarrow> byte list option" where
  "To4 ip =
     (if length ip = 4 then Some ip
      else if length ip = 16 \<and> take 12 ip = v4InV6Prefix then Some (drop 12 ip)
      else None)"

definition IPv6loopback :: "byte list" where
  "IPv6loopback = [0, 0, 0, 0, 0, 0, 0, 0, 0, 0, 0, 0, 0, 0, 0, 1]"

definition IsLoopback :: "byte list \<Rightarrow> bool" where
  "IsLoopback ip = (case To4 ip of Some ip4 \<Rightarrow> hd ip4 = 127 | None \<Rightarrow> ip = IPv6loopback)"

fun uitoa :: "nat \<Rightarrow> string" where
  "uitoa n =
     (if n < 10 then [''0123456789'' ! n] else uitoa (n div 10) @ [''0123456789'' ! (n mod 10)])"

declare uitoa.simps [simp del]

fun hexNat :: "nat \<Rightarrow> string" where
  "hexNat n = (if n < 16 then [lowerhex ! n] else hexNat (n div 16) @ [lowerhex ! (n mod 16)])"

declare hexNat.simps [simp del]

definition hexByte :: "byte \<Rightarrow> string" where
  "hexByte b = [lowerhex ! (unat b div 16), lowerhex ! (unat b mod 16)]"

fun joinWith :: "char \<Rightarrow> string list \<Rightarrow> string" where
  "joinWith c [] = []"
| "joinWith c [x] = x"
| "joinWith c (x # y # ys) = x @ c # joinWith c (y # ys)"

fun groups16 :: "byte list \<Rightarrow> nat list" where
  "groups16 (a # b # rest) = (unat a * 256 + unat b) # groups16 rest"
| "groups16 _ = []"

text \<open>
  The longest run of zero groups, the first one among equals, as \<open>(start, length)\<close>.
  Go jumps over a run it has just taken; the groups inside it start shorter runs only,
  so looking at each of them changes nothing.
\<close>

fun longestZeroRun :: "nat \<Rightarrow> nat list \<Rightarrow> nat \<times> nat \<Rightarrow> nat \<times> nat" where
  "longestZeroRun i [] best = best"
| "longestZeroRun i (g # gs) best =
     (let r = length (takeWhile (\<lambda>x. x = 0) (g # gs))
      in if r > snd best then longestZeroRun (i + 1) gs (i, r)
         else longestZeroRun (i + 1) gs best)"

definition ipv6String :: "byte list \<Rightarrow> string" where
  "ipv6String ip =
     (let gs = groups16 ip; run = longestZeroRun 0 gs (0, 0) in
      if snd run \<le> 1 then joinWith (CHR '':'') (map hexNat gs)
      else joinWith (CHR '':'') (map hexNat (take (fst run) gs)) @ ''::''
           @ joinWith (CHR '':'') (map hexNat (drop (fst run + snd run) gs)))"

definition IP_String :: "byte list \<Rightarrow> string" where
  "IP_String ip =
     (if length ip = 0 then ''<nil>''
      else
        (case To4 ip of
           Some p4 \<Rightarrow> joinWith (CHR ''.'') (map (\<lambda>b. uitoa (unat b)) p4)
         | None \<Rightarrow>
             if length ip \<noteq> 16 then CHR ''?'' # concat (map hexByte ip)
             else ipv6String ip))"

text \<open>\<open>HardwareAddr.String\<close>: the bytes in lower-case hexadecimal, colons between.\<close>

definition HardwareAddr_String :: "byte list \<Rightarrow> string" where
  "HardwareAddr_String a = joinWith (CHR '':'') (map hexByte a)"

section \<open>The classifier's regular expression\<close>

text \<open>
  \<open>regexp.MustCompile(`-.*:`).FindString\<close>: the leftmost match, and there the longest
  one: from the first dash that has a colon after it on its line, up to the last colon
  of that line (the dot matches any byte but the newline). No match is the empty text.
\<close>

definition matchHere :: "string \<Rightarrow> string option" where
  "matchHere s =
     (case s of
        [] \<Rightarrow> None
      | c # rest \<Rightarrow>
          if c \<noteq> CHR ''-'' then None
          else
            (let line = takeWhile (\<lambda>x. x \<noteq> CHR 0x0A) rest in
             if CHR '':'' \<in> set line
             then Some (c # rev (dropWhile (\<lambda>x. x \<noteq> CHR '':'') (rev line)))
             else None))"

fun FindString :: "string \<Rightarrow> string" where
  "FindString [] = []"
| "FindString (c # cs) =
     (case matchHere (c # cs) of Some m \<Rightarrow> m | None \<Rightarrow> FindString cs)"

section \<open>The external collaborators\<close>

text \<open>
  What a handler is given from outside \<open>info.go\<close>: the five flag sets of the maintenance
  sub-commands as the constructor of \<open>Flags\<close> left them (with the flags common to all
  commands already defined), the management-engine client (\<open>f.amtCommand\<close>), the network
  enumerator (\<open>f.netEnumerator\<close>), the OS hostname accessors and the password prompt.
  A Go call that returns \<open>(value, error)\<close> is a pair here, so that a value returned
  together with an error is not lost.
\<close>

record Env =
  amtMaintenanceSyncClockCommand :: FlagSet
  amtMaintenanceSyncDeviceInfoCommand :: FlagSet
  amtMaintenanceSyncHostnameCommand :: FlagSet
  amtMaintenanceSyncIPCommand :: FlagSet
  amtMaintenanceChangePasswordCommand :: FlagSet
  GetLANInterfaceSettings :: "bool \<Rightarrow> InterfaceSettings \<times> error"
  Interfaces :: "Interface list \<times> error"
  InterfaceAddrs :: "Interface \<Rightarrow> Addr list \<times> error"
  GetOSDNSSuffix :: "string \<times> error"
  os_Hostname :: "string \<times> error"
  ReadPasswordFromUser :: "Flags \<Rightarrow> (bool \<times> int) \<times> Flags"

section \<open>The sub-command handlers\<close>

definition printMaintenanceUsage :: "World \<Rightarrow> World" where
  "printMaintenanceUsage w = emit PrintMaintenanceUsage w"

text \<open>\<open>FlagSet.Usage()\<close>, called by a handler after a failed \<open>Parse\<close>.\<close>

definition Usage :: "FlagSet \<Rightarrow> World \<Rightarrow> World" where
  "Usage fs w = emit (FlagUsage (fsName fs)) w"

definition handleMaintenanceSyncClock :: "Env \<Rightarrow> World \<Rightarrow> (ReturnCode \<times> World) option" where
  "handleMaintenanceSyncClock env w =
     (if length (commandLineArgs (flags w)) < 3 then None
      else
        (case Parse (amtMaintenanceSyncClockCommand env) (drop 3 (commandLineArgs (flags w))) w of
           (Some err, w1) \<Rightarrow> Some (IncorrectCommandLineParameters, w1)
         | (None, w1) \<Rightarrow> Some (Success, w1)))"

definition handleMaintenanceSyncDeviceInfo :: "Env \<Rightarrow> World \<Rightarrow> (ReturnCode \<times> World) option" where
  "handleMaintenanceSyncDeviceInfo env w =
     (if length (commandLineArgs (flags w)) < 3 then None
      else
        (case Parse (amtMaintenanceSyncDeviceInfoCommand env)
                (drop 3 (commandLineArgs (flags w))) w of
           (Some err, w1) \<Rightarrow> Some (IncorrectCommandLineParameters, w1)
         | (None, w1) \<Rightarrow> Some (Success, w1)))"

definition set_DnsSuffixOS :: "string \<Rightarrow> Flags \<Rightarrow> Flags" where
  "set_DnsSuffixOS v f = f\<lparr>HostnameInfo := (HostnameInfo f)\<lparr>DnsSuffixOS := v\<rparr>\<rparr>"

definition set_Hostname :: "string \<Rightarrow> Flags \<Rightarrow> Flags" where
  "set_Hostname v f = f\<lparr>HostnameInfo := (HostnameInfo f)\<lparr>Hostname := v\<rparr>\<rparr>"

definition handleMaintenanceSyncHostname :: "Env \<Rightarrow> World \<Rightarrow> (ReturnCode \<times> World) option" where
  "handleMaintenanceSyncHostname env w =
     (if length (commandLineArgs (flags w)) < 3 then None
      else
        (case Parse (amtMaintenanceSyncHostnameCommand env)
                (drop 3 (commandLineArgs (flags w))) w of
           (Some err, w1) \<Rightarrow>
             Some (IncorrectCommandLineParameters, Usage (amtMaintenanceSyncHostnameCommand env) w1)
         | (None, w1) \<Rightarrow>
             (let w2 = emit Call_GetOSDNSSuffix w1;
                  w3 = w2\<lparr>flags := set_DnsSuffixOS (fst (GetOSDNSSuffix env)) (flags w2)\<rparr>;
                  w4 = (case snd (GetOSDNSSuffix env) of
                          Some e \<Rightarrow> emit (LogError e) w3
                        | None \<Rightarrow> w3);
                  w5 = emit Call_Hostname w4;
                  w6 = w5\<lparr>flags := set_Hostname (fst (os_Hostname env)) (flags w5)\<rparr>
              in (case snd (os_Hostname env) of
                    Some e \<Rightarrow> Some (OSNetworkInterfacesLookupFailed, emit (LogError e) w6)
                  | None \<Rightarrow>
                      if Hostname (HostnameInfo (flags w6)) = []
                      then Some (OSNetworkInterfacesLookupFailed,
                                 emit (LogError ''OS hostname is not available'') w6)
                      else Some (Success, w6)))))"

text \<open>The five setters \<open>*assignee = val\<close> of the IP configuration.\<close>

definition set_IpAddress :: "string \<Rightarrow> Flags \<Rightarrow> Flags" where
  "set_IpAddress v f = f\<lparr>IpConfiguration := (IpConfiguration f)\<lparr>IpAddress := v\<rparr>\<rparr>"

definition set_Netmask :: "string \<Rightarrow> Flags \<Rightarrow> Flags" where
  "set_Netmask v f = f\<lparr>IpConfiguration := (IpConfiguration f)\<lparr>Netmask := v\<rparr>\<rparr>"

definition set_Gateway :: "string \<Rightarrow> Flags \<Rightarrow> Flags" where
  "set_Gateway v f = f\<lparr>IpConfiguration := (IpConfiguration f)\<lparr>Gateway := v\<rparr>\<rparr>"

definition set_PrimaryDns :: "string \<Rightarrow> Flags \<Rightarrow> Flags" where
  "set_PrimaryDns v f = f\<lparr>IpConfiguration := (IpConfiguration f)\<lparr>PrimaryDns := v\<rparr>\<rparr>"

definition set_SecondaryDns :: "string \<Rightarrow> Flags \<Rightarrow> Flags" where
  "set_SecondaryDns v f = f\<lparr>IpConfiguration := (IpConfiguration f)\<lparr>SecondaryDns := v\<rparr>\<rparr>"

text \<open>\<open>validateIP\<close>: the assignment happens only after \<open>net.ParseIP\<close> accepted the value.\<close>

definition validateIP :: "(string \<Rightarrow> Flags \<Rightarrow> Flags) \<Rightarrow> string \<Rightarrow> Flags \<Rightarrow> error \<times> Flags" where
  "validateIP assignee val f =
     (if ParseIP val = None then (Some ''not a valid ip address'', f)
      else (None, assignee val f))"

text \<open>\<open>FlagSet.Func\<close> and \<open>FlagSet.StringVar\<close>.\<close>

definition Func ::
  "FlagSet \<Rightarrow> string \<Rightarrow> (string \<Rightarrow> Flags \<Rightarrow> error \<times> Flags) \<Rightarrow> FlagSet option" where
  "Func fs name fn = Var fs \<lparr>IsBoolFlag = False, SetValue = fn\<rparr> name"

definition StringVar :: "FlagSet \<Rightarrow> (string \<Rightarrow> Flags \<Rightarrow> Flags) \<Rightarrow> string \<Rightarrow> FlagSet option" where
  "StringVar fs p name = Var fs \<lparr>IsBoolFlag = False, SetValue = (\<lambda>v f. (None, p v f))\<rparr> name"

definition syncIPFlags :: "FlagSet \<Rightarrow> FlagSet option" where
  "syncIPFlags fs0 =
     Option.bind (Func fs0 ''staticip'' (validateIP set_IpAddress)) (\<lambda>fs1.
     Option.bind (Func fs1 ''netmask'' (validateIP set_Netmask)) (\<lambda>fs2.
     Option.bind (Func fs2 ''gateway'' (validateIP set_Gateway)) (\<lambda>fs3.
     Option.bind (Func fs3 ''primarydns'' (validateIP set_PrimaryDns)) (\<lambda>fs4.
     Func fs4 ''secondarydns'' (validateIP set_SecondaryDns)))))"

text \<open>The \<open>switch\<close> over the text the regular expression found in the parse error.\<close>

definition syncIPErrorCode :: "string \<Rightarrow> ReturnCode" where
  "syncIPErrorCode err =
     (let m = FindString err in
      if m = ''-netmask:'' then MissingOrIncorrectNetworkMask
      else if m = ''-staticip:'' then MissingOrIncorrectStaticIP
      else if m = ''-gateway:'' then MissingOrIncorrectGateway
      else if m = ''-primarydns:'' then MissingOrIncorrectPrimaryDNS
      else if m = ''-secondarydns:'' then MissingOrIncorrectSecondaryDNS
      else IncorrectCommandLineParameters)"

text \<open>The inner loop \<open>for _, address := range addrs\<close>: every address that is an
  \<open>*net.IPNet\<close>, IPv4 and not loopback is assigned; the loop has no \<open>break\<close>.\<close>

fun scanAddrs :: "Addr list \<Rightarrow> Flags \<Rightarrow> Flags" where
  "scanAddrs [] f = f"
| "scanAddrs (IPNet ip msk # rest) f =
     (if To4 ip \<noteq> None \<and> \<not> IsLoopback ip
      then scanAddrs rest (set_Netmask (IP_String msk) (set_IpAddress (IP_String ip) f))
      else scanAddrs rest f)"
| "scanAddrs (OtherAddr a # rest) f = scanAddrs rest f"

text \<open>
  The outer loop \<open>for _, i := range ifaces\<close>. \<open>err\<close> is the variable the loop tests
  after \<open>InterfaceAddrs\<close>: the error of the \<open>Interfaces\<close> call before the loop, since
  the error of \<open>InterfaceAddrs\<close> itself is assigned to the blank identifier.
\<close>

fun scanInterfaces :: "Env \<Rightarrow> error \<Rightarrow> string \<Rightarrow> Interface list \<Rightarrow> World \<Rightarrow> World" where
  "scanInterfaces env err mac [] w = w"
| "scanInterfaces env err mac (i # rest) w =
     (if length (IpAddress (IpConfiguration (flags w))) \<noteq> 0 then w
      else if HardwareAddr_String (HardwareAddr i) \<noteq> mac then scanInterfaces env err mac rest w
      else
        (let w1 = emit (Call_InterfaceAddrs i) w;
             addrs = fst (InterfaceAddrs env i)
         in if err \<noteq> None then scanInterfaces env err mac rest w1
            else scanInterfaces env err mac rest (w1\<lparr>flags := scanAddrs addrs (flags w1)\<rparr>)))"

definition handleMaintenanceSyncIP :: "Env \<Rightarrow> World \<Rightarrow> (ReturnCode \<times> World) option" where
  "handleMaintenanceSyncIP env w =
     (case syncIPFlags (amtMaintenanceSyncIPCommand env) of
        None \<Rightarrow> None
      | Some fs \<Rightarrow>
          if length (commandLineArgs (flags w)) < 3 then None
          else
            (case Parse fs (drop 3 (commandLineArgs (flags w))) w of
               (Some err, w1) \<Rightarrow> Some (syncIPErrorCode err, Usage fs w1)
             | (None, w1) \<Rightarrow>
                 if length (IpAddress (IpConfiguration (flags w1))) \<noteq> 0 then Some (Success, w1)
                 else
                   (let w2 = emit (Call_GetLANInterfaceSettings False) w1 in
                    case GetLANInterfaceSettings env False of
                      (amtLanIfc, Some e) \<Rightarrow> Some (AMTConnectionFailed, emit (LogError e) w2)
                    | (amtLanIfc, None) \<Rightarrow>
                        (let w3 = emit Call_Interfaces w2 in
                         case Interfaces env of
                           (ifaces, Some e) \<Rightarrow>
                             Some (OSNetworkInterfacesLookupFailed, emit (LogError e) w3)
                         | (ifaces, None) \<Rightarrow>
                             (let w4 = scanInterfaces env None (MACAddress amtLanIfc) ifaces w3 in
                              if length (IpAddress (IpConfiguration (flags w4))) = 0
                              then Some (OSNetworkInterfacesLookupFailed,
                                         emit (LogError ''static ip address not found'') w4)
                              else Some (Success, w4))))))"

definition set_StaticPassword :: "string \<Rightarrow> Flags \<Rightarrow> Flags" where
  "set_StaticPassword v f = f\<lparr>StaticPassword := v\<rparr>"

definition handleMaintenanceSyncChangePassword ::
  "Env \<Rightarrow> World \<Rightarrow> (ReturnCode \<times> World) option" where
  "handleMaintenanceSyncChangePassword env w =
     (case StringVar (amtMaintenanceChangePasswordCommand env) set_StaticPassword ''static'' of
        None \<Rightarrow> None
      | Some fs \<Rightarrow>
          if length (commandLineArgs (flags w)) < 3 then None
          else
            (case Parse fs (drop 3 (commandLineArgs (flags w))) w of
               (Some err, w1) \<Rightarrow> Some (IncorrectCommandLineParameters, Usage fs w1)
             | (None, w1) \<Rightarrow> Some (Success, w1)))"

section \<open>The dispatcher\<close>

text \<open>The \<open>switch f.SubCommand\<close> of \<open>handleMaintenanceCommand\<close>, with its default case.\<close>

definition runSubCommand :: "Env \<Rightarrow> World \<Rightarrow> (ReturnCode \<times> World) option" where
  "runSubCommand env w =
     (if SubCommand (flags w) = ''syncclock''
        then handleMaintenanceSyncClock env (emit (Invoke ''syncclock'') w)
      else if SubCommand (flags w) = ''synchostname''
        then handleMaintenanceSyncHostname env (emit (Invoke ''synchostname'') w)
      else if SubCommand (flags w) = ''syncip''
        then handleMaintenanceSyncIP env (emit (Invoke ''syncip'') w)
      else if SubCommand (flags w) = ''changepassword''
        then handleMaintenanceSyncChangePassword env (emit (Invoke ''changepassword'') w)
      else if SubCommand (flags w) = ''syncdeviceinfo''
        then handleMaintenanceSyncDeviceInfo env (emit (Invoke ''syncdeviceinfo'') w)
      else Some (IncorrectCommandLineParameters, printMaintenanceUsage w))"

text \<open>What follows the \<open>switch\<close> once the sub-handler has returned \<open>Success\<close>:
  the password prompt, the copy into the local configuration, the URL check.\<close>

definition checkPasswordAndURL :: "Env \<Rightarrow> World \<Rightarrow> ReturnCode \<times> World" where
  "checkPasswordAndURL env w =
     (let prompted =
            (if Password (flags w) = []
             then (case ReadPasswordFromUser env (flags w) of
                     ((ok, rc), f') \<Rightarrow>
                       (rc \<noteq> 0, (emit Call_ReadPasswordFromUser w)\<lparr>flags := f'\<rparr>))
             else (False, w))
      in if fst prompted then (MissingOrIncorrectPassword, snd prompted)
         else
           (let w1 = snd prompted;
                w2 = w1\<lparr>flags := (flags w1)\<lparr>LocalConfig_Password := Password (flags w1)\<rparr>\<rparr>
            in if \<not> Local (flags w2) then
                 (if URL (flags w2) = []
                  then (MissingOrIncorrectURL, printMaintenanceUsage (emit PrintURLRequired w2))
                  else (Success, w2))
               else (Success, w2)))"

text \<open>\<open>handleMaintenanceCommand\<close>. \<open>None\<close> is a run-time panic: the index
  \<open>f.commandLineArgs[2]\<close> out of range, or a flag defined twice.\<close>

definition handleMaintenanceCommand :: "Env \<Rightarrow> World \<Rightarrow> (ReturnCode \<times> World) option" where
  "handleMaintenanceCommand env w =
     (if length (commandLineArgs (flags w)) = 2
      then Some (IncorrectCommandLineParameters, printMaintenanceUsage w)
      else if length (commandLineArgs (flags w)) < 3 then None
      else
        (let w1 = w\<lparr>flags := (flags w)\<lparr>SubCommand := commandLineArgs (flags w) ! 2\<rparr>\<rparr> in
         case runSubCommand env w1 of
           None \<Rightarrow> None
         | Some (rc, w2) \<Rightarrow>
             if rc \<noteq> Success then Some (rc, w2)
             else Some (checkPasswordAndURL env w2)))"

section \<open>Observations on a run\<close>

text \<open>
  The events the flag package itself produces.
\<close>

fun isFlagEvent :: "event \<Rightarrow> bool" where
  "isFlagEvent (FlagOutput m) = True"
| "isFlagEvent (FlagUsage n) = True"
| "isFlagEvent e = False"

text \<open>
  The events of the shared precondition checks of the dispatcher: the password prompt,
  and the message of the URL check.
\<close>

fun isPreconditionEvent :: "event \<Rightarrow> bool" where
  "isPreconditionEvent Call_ReadPasswordFromUser = True"
| "isPreconditionEvent PrintURLRequired = True"
| "isPreconditionEvent e = False"

definition noPreconditionEvent :: "event list \<Rightarrow> bool" where
  "noPreconditionEvent es = list_all (\<lambda>e. \<not> isPreconditionEvent e) es"

text \<open>
  The calls of the engine client and of the network enumerator.
\<close>

fun isEngineOrEnumeratorCall :: "event \<Rightarrow> bool" where
  "isEngineOrEnumeratorCall (Call_GetLANInterfaceSettings b) = True"
| "isEngineOrEnumeratorCall Call_Interfaces = True"
| "isEngineOrEnumeratorCall (Call_InterfaceAddrs i) = True"
| "isEngineOrEnumeratorCall e = False"

text \<open>
  The five sub-command names of the dispatcher's \<open>switch\<close>.
\<close>

definition subCommands :: "string list" where
  "subCommands =
     [''syncclock'', ''synchostname'', ''syncip'', ''changepassword'', ''syncdeviceinfo'']"

text \<open>
  An address the inner loop of the resolver assigns (an \<open>*net.IPNet\<close>, IPv4, not
  loopback), and an interface the scan resolves on: its hardware address is the engine's
  and one of its addresses qualifies.
\<close>

fun qualifies :: "Addr \<Rightarrow> bool" where
  "qualifies (IPNet ip msk) = (To4 ip \<noteq> None \<and> \<not> IsLoopback ip)"
| "qualifies (OtherAddr a) = False"

definition matchingInterface :: "Env \<Rightarrow> string \<Rightarrow> Interface \<Rightarrow> bool" where
  "matchingInterface env mac i =
     (HardwareAddr_String (HardwareAddr i) = mac \<and> list_ex qualifies (fst (InterfaceAddrs env i)))"

text \<open>
  The dotted-decimal text of four bytes, as \<open>IP.String\<close> writes it.
\<close>

definition dotted :: "byte list \<Rightarrow> string" where
  "dotted p = joinWith (CHR ''.'') (map (\<lambda>b. uitoa (unat b)) p)"

text \<open>
  Readings of "the field parses as an address": \<open>isIPText\<close> is what \<open>validateIP\<close>
  checks (\<open>net.ParseIP\<close> does not return \<open>nil\<close>); \<open>isIPv4Text\<close> asks in addition
  that the parsed address is an IPv4 address (\<open>To4\<close> does not return \<open>nil\<close>). An empty
  field is unset.
\<close>

definition isIPText :: "string \<Rightarrow> bool" where
  "isIPText s = (ParseIP s \<noteq> None)"

definition isIPv4Text :: "string \<Rightarrow> bool" where
  "isIPv4Text s = (case ParseIP s of None \<Rightarrow> False | Some ip \<Rightarrow> To4 ip \<noteq> None)"

definition configFields :: "IPConfiguration \<Rightarrow> string list" where
  "configFields c = [IpAddress c, Netmask c, Gateway c, PrimaryDns c, SecondaryDns c]"

definition fieldsAreIPv4 :: "IPConfiguration \<Rightarrow> bool" where
  "fieldsAreIPv4 c = list_all (\<lambda>s. s = [] \<or> isIPv4Text s) (configFields c)"

definition fieldsAreIP :: "IPConfiguration \<Rightarrow> bool" where
  "fieldsAreIP c = list_all (\<lambda>s. s = [] \<or> isIPText s) (configFields c)"

text \<open>
  The network mask of an address the resolver would assign has four bytes, as the
  masks \<open>net.Interface.Addrs\<close> reports for IPv4 addresses have.
\<close>

fun hasIPv4Mask :: "Addr \<Rightarrow> bool" where
  "hasIPv4Mask (IPNet ip msk) = (To4 ip = None \<or> IsLoopback ip \<or> length msk = 4)"
| "hasIPv4Mask (OtherAddr a) = True"

section \<open>Example data\<close>

text \<open>
  Concrete runs to evaluate the handlers on. The flag sets define the string flags
  \<open>-u\<close> and \<open>-password\<close>; the engine's wired adapter has the hardware address
  \<open>0a:0b:0c:0d:0e:0f\<close>; the host has a loopback interface and \<open>eth0\<close> with the address
  192.168.1.20/255.255.255.0; the user types a password when asked.
\<close>

definition set_URL :: "string \<Rightarrow> Flags \<Rightarrow> Flags" where
  "set_URL v f = f\<lparr>URL := v\<rparr>"

definition set_Password :: "string \<Rightarrow> Flags \<Rightarrow> Flags" where
  "set_Password v f = f\<lparr>Password := v\<rparr>"

definition stringValue :: "(string \<Rightarrow> Flags \<Rightarrow> Flags) \<Rightarrow> FlagValue" where
  "stringValue p = \<lparr>IsBoolFlag = False, SetValue = (\<lambda>v f. (None, p v f))\<rparr>"

definition exampleFlagSet :: "string \<Rightarrow> FlagSet" where
  "exampleFlagSet n =
     \<lparr>fsName = n,
      formal = [''u'' \<mapsto> stringValue set_URL, ''password'' \<mapsto> stringValue set_Password]\<rparr>"

definition exampleInterface :: "string \<Rightarrow> byte list \<Rightarrow> Interface" where
  "exampleInterface n hw = \<lparr>Index = 1, MTU = 1500, Name = n, HardwareAddr = hw, IfFlags = 0\<rparr>"

definition exampleSettings :: "string \<Rightarrow> InterfaceSettings" where
  "exampleSettings m =
     \<lparr>DHCPEnabled = True, DHCPMode = ''passive'', LinkStatus = ''up'',
      IPAddress = ''0.0.0.0'', MACAddress = m\<rparr>"

definition exampleEnv :: Env where
  "exampleEnv =
     \<lparr>amtMaintenanceSyncClockCommand = exampleFlagSet ''syncclock'',
      amtMaintenanceSyncDeviceInfoCommand = exampleFlagSet ''syncdeviceinfo'',
      amtMaintenanceSyncHostnameCommand = exampleFlagSet ''synchostname'',
      amtMaintenanceSyncIPCommand = exampleFlagSet ''syncip'',
      amtMaintenanceChangePasswordCommand = exampleFlagSet ''changepassword'',
      GetLANInterfaceSettings = (\<lambda>wireless. (exampleSettings ''0a:0b:0c:0d:0e:0f'', None)),
      Interfaces =
        ([exampleInterface ''lo'' [], exampleInterface ''eth0'' [0x0a, 0x0b, 0x0c, 0x0d, 0x0e, 0x0f]],
         None),
      InterfaceAddrs =
        (\<lambda>i. if Name i = ''eth0'' then ([IPNet [192, 168, 1, 20] [255, 255, 255, 0]], None)
             else ([IPNet [127, 0, 0, 1] [255, 0, 0, 0]], None)),
      GetOSDNSSuffix = (''corp.example'', None),
      os_Hostname = (''host1'', None),
      ReadPasswordFromUser = (\<lambda>f. ((True, 0), f\<lparr>Password := ''secret''\<rparr>))\<rparr>"

definition exampleWorld :: "string list \<Rightarrow> World" where
  "exampleWorld args =
     \<lparr>flags =
        \<lparr>commandLineArgs = args, SubCommand = [], Password = [], URL = [], Local = False,
         LocalConfig_Password = [], StaticPassword = [],
         IpConfiguration =
           \<lparr>IpAddress = [], Netmask = [], Gateway = [], PrimaryDns = [], SecondaryDns = []\<rparr>,
         HostnameInfo = \<lparr>DnsSuffixOS = [], Hostname = []\<rparr>\<rparr>,
      trace = []\<rparr>"

text \<open>
  The flag set of \<open>syncip\<close> once the handler has added its five flags.
\<close>

definition exampleSyncIPFlagSet :: FlagSet where
  "exampleSyncIPFlagSet =
     \<lparr>fsName = ''syncip'',
      formal = [''u'' \<mapsto> stringValue set_URL, ''password'' \<mapsto> stringValue set_Password,
        ''staticip'' \<mapsto> \<lparr>IsBoolFlag = False, SetValue = validateIP set_IpAddress\<rparr>,
        ''netmask'' \<mapsto> \<lparr>IsBoolFlag = False, SetValue = validateIP set_Netmask\<rparr>,
        ''gateway'' \<mapsto> \<lparr>IsBoolFlag = False, SetValue = validateIP set_Gateway\<rparr>,
        ''primarydns'' \<mapsto> \<lparr>IsBoolFlag = False, SetValue = validateIP set_PrimaryDns\<rparr>,
        ''secondarydns'' \<mapsto> \<lparr>IsBoolFlag = False, SetValue = validateIP set_SecondaryDns\<rparr>]\<rparr>"

text \<open>
  Variations of the example: a host without a hostname, with and without a DNS suffix;
  an engine that does not answer; an enumerator that fails; an engine whose adapter is
  none of the host's; an enumerator whose \<open>InterfaceAddrs\<close> fails; and an interface
  with two IPv4 addresses.
\<close>

definition failingHostnameEnv :: Env where
  "failingHostnameEnv = exampleEnv\<lparr>os_Hostname := ([], None)\<rparr>"

definition noSuffixNoHostnameEnv :: Env where
  "noSuffixNoHostnameEnv =
     exampleEnv\<lparr>GetOSDNSSuffix := ([], Some ''no dns suffix''), os_Hostname := ([], None)\<rparr>"

definition brokenEngineEnv :: Env where
  "brokenEngineEnv =
     exampleEnv\<lparr>GetLANInterfaceSettings := (\<lambda>wireless. (exampleSettings [], Some ''engine not ready'')),
                Interfaces := ([], Some ''netlink failure'')\<rparr>"

definition brokenEnumeratorEnv :: Env where
  "brokenEnumeratorEnv = exampleEnv\<lparr>Interfaces := ([], Some ''netlink failure'')\<rparr>"

definition otherAdapterEnv :: Env where
  "otherAdapterEnv =
     exampleEnv\<lparr>GetLANInterfaceSettings := (\<lambda>wireless. (exampleSettings ''00:00:00:00:00:00'', None))\<rparr>"

definition addrsFailEnv :: Env where
  "addrsFailEnv = exampleEnv\<lparr>InterfaceAddrs := (\<lambda>i. ([], Some ''permission denied''))\<rparr>"

definition twoAddressEnv :: Env where
  "twoAddressEnv =
     exampleEnv\<lparr>InterfaceAddrs :=
       (\<lambda>i. if Name i = ''eth0''
             then ([IPNet [192, 168, 1, 20] [255, 255, 255, 0], IPNet [10, 0, 0, 5] [255, 0, 0, 0]],
                   None)
             else ([IPNet [127, 0, 0, 1] [255, 0, 0, 0]], None))\<rparr>"

section \<open>Lemmas on the flag parser\<close>

lemma trace_emit [simp]: "trace (emit e w) = trace w @ [e]"
  by (simp add: emit_def)

lemma flags_emit [simp]: "flags (emit e w) = flags w"
  by (simp add: emit_def)

text \<open>A flag that was seen has consumed at least one argument.\<close>

lemma parseOne_seen_shorter:
  "parseOne fs args w = ((True, e), args', w') \<Longrightarrow> length args' < length args"
  by (auto simp: parseOne_def setFlag_def Let_def
      split: list.splits if_splits option.splits prod.splits)

lemma parseOne_cases:
  assumes "parseOne fs args w = (r, args', w')"
  obtains
    (unchanged) "w' = w"
  | (failed) m where "w' = failf fs m w"
  | (usage) "w' = emit (FlagUsage (fsName fs)) w"
  | (setting) name flag v msg rest where
      "formal fs name = Some flag" "setFlag fs flag v msg rest w = (r, args', w')"
  using assms unfolding parseOne_def Let_def
  by (simp split: list.splits if_splits option.splits prod.splits) blast+

lemma setFlag_flags:
  "setFlag fs flag v msg rest w = (r, args', w') \<Longrightarrow>
     flags w' = snd (SetValue flag v (flags w))"
  by (auto simp: setFlag_def failf_def split: prod.splits option.splits)

lemma setFlag_trace:
  "setFlag fs flag v msg rest w = (r, args', w') \<Longrightarrow>
     \<exists>es. trace w' = trace w @ es \<and> list_all isFlagEvent es"
  by (auto simp: setFlag_def failf_def split: prod.splits option.splits)

lemma parseOne_trace:
  assumes "parseOne fs args w = (r, args', w')"
  shows "\<exists>es. trace w' = trace w @ es \<and> list_all isFlagEvent es"
  using assms
proof (cases rule: parseOne_cases)
  case unchanged
  then show ?thesis by simp
next
  case (failed m)
  then show ?thesis by (simp add: failf_def)
next
  case usage
  then show ?thesis by simp
next
  case (setting name flag v msg rest)
  then show ?thesis by (auto dest: setFlag_trace)
qed

text \<open>Whatever every round of \<open>parseOne\<close> keeps, \<open>Parse\<close> keeps.\<close>

lemma Parse_invariant:
  assumes step: "\<And>args w r args' w'. I w \<Longrightarrow> parseOne fs args w = (r, args', w') \<Longrightarrow> I w'"
    and init: "I w"
  shows "I (snd (Parse fs args w))"
  using init
proof (induction "length args" arbitrary: args w rule: less_induct)
  case less
  obtain seen e args1 w1 where p: "parseOne fs args w = ((seen, e), args1, w1)"
    by (metis prod.exhaust)
  have w1: "I w1" using step [OF less.prems p] .
  show ?case
  proof (cases seen)
    case True
    with p have "length args1 < length args" by (auto dest: parseOne_seen_shorter)
    then have "I (snd (Parse fs args1 w1))" using w1 by (rule less.hyps)
    moreover have "Parse fs args w = Parse fs args1 w1"
      by (subst Parse.simps) (simp add: p True)
    ultimately show ?thesis by simp
  next
    case False
    have "Parse fs args w = (e, w1)"
      by (subst Parse.simps) (simp add: p False)
    with w1 show ?thesis by simp
  qed
qed

lemma Parse_trace:
  assumes "Parse fs args w = (err, w')"
  shows "\<exists>es. trace w' = trace w @ es \<and> list_all isFlagEvent es"
proof -
  have "\<exists>es. trace (snd (Parse fs args w)) = trace w @ es \<and> list_all isFlagEvent es"
  proof (rule Parse_invariant [where I = "\<lambda>x. \<exists>es. trace x = trace w @ es \<and> list_all isFlagEvent es"])
    fix args1 w1 r args' w2
    assume "\<exists>es. trace w1 = trace w @ es \<and> list_all isFlagEvent es"
      and "parseOne fs args1 w1 = (r, args', w2)"
    then obtain es1 es2 where "trace w1 = trace w @ es1" "list_all isFlagEvent es1"
      "trace w2 = trace w1 @ es2" "list_all isFlagEvent es2"
      using parseOne_trace by blast
    then show "\<exists>es. trace w2 = trace w @ es \<and> list_all isFlagEvent es"
      by (intro exI [of _ "es1 @ es2"]) simp
  qed simp
  with assms show ?thesis by simp
qed

section \<open>Lemmas on the handlers' traces\<close>

lemma isFlagEvent_noPrecondition: "list_all isFlagEvent es \<Longrightarrow> noPreconditionEvent es"
  unfolding noPreconditionEvent_def
  by (induction es) (auto elim: isFlagEvent.elims)

lemma noPreconditionEvent_append [simp]:
  "noPreconditionEvent (xs @ ys) = (noPreconditionEvent xs \<and> noPreconditionEvent ys)"
  by (simp add: noPreconditionEvent_def)

lemma Parse_quiet:
  assumes "Parse fs args w = (err, w')"
  shows "\<exists>es. trace w' = trace w @ es \<and> noPreconditionEvent es"
  using Parse_trace [OF assms] isFlagEvent_noPrecondition by blast

lemma scanInterfaces_quiet:
  "\<exists>es. trace (scanInterfaces env err mac ifaces w) = trace w @ es \<and> noPreconditionEvent es"
proof (induction ifaces arbitrary: w)
  case Nil
  then show ?case by (simp add: noPreconditionEvent_def)
next
  case (Cons i rest)
  have e: "noPreconditionEvent [Call_InterfaceAddrs i]" by (simp add: noPreconditionEvent_def)
  have n: "noPreconditionEvent []" by (simp add: noPreconditionEvent_def)
  let ?w1 = "emit (Call_InterfaceAddrs i) w"
  from Cons.IH [of w] obtain es0 where
    es0: "trace (scanInterfaces env err mac rest w) = trace w @ es0" "noPreconditionEvent es0"
    by blast
  from Cons.IH [of ?w1] obtain es1 where
    es1: "trace (scanInterfaces env err mac rest ?w1) = trace w @ [Call_InterfaceAddrs i] @ es1"
      "noPreconditionEvent es1"
    by auto
  from Cons.IH [of "?w1\<lparr>flags := scanAddrs (fst (InterfaceAddrs env i)) (flags ?w1)\<rparr>"]
  obtain es2 where
    es2: "trace (scanInterfaces env err mac rest
            (?w1\<lparr>flags := scanAddrs (fst (InterfaceAddrs env i)) (flags ?w1)\<rparr>))
          = trace w @ [Call_InterfaceAddrs i] @ es2" "noPreconditionEvent es2"
    by auto
  show ?case
    using es0 es1 es2 e n
    by (auto simp: Let_def simp del: append.simps intro: exI [of _ "[]"])
qed

lemma noPreconditionEvent_simps [simp]:
  "noPreconditionEvent []"
  "noPreconditionEvent (e # es) = (\<not> isPreconditionEvent e \<and> noPreconditionEvent es)"
  by (simp_all add: noPreconditionEvent_def)

lemma quiet_trans:
  assumes "\<exists>es. trace w1 = trace w @ es \<and> noPreconditionEvent es"
    and "\<exists>es. trace w2 = trace w1 @ es \<and> noPreconditionEvent es"
  shows "\<exists>es. trace w2 = trace w @ es \<and> noPreconditionEvent es"
proof -
  from assms obtain es1 es2 where "trace w1 = trace w @ es1" "noPreconditionEvent es1"
    "trace w2 = trace w1 @ es2" "noPreconditionEvent es2" by blast
  then show ?thesis by (intro exI [of _ "es1 @ es2"]) simp
qed

lemma quiet_emit:
  assumes "\<exists>es. trace w1 = trace w @ es \<and> noPreconditionEvent es" "\<not> isPreconditionEvent e"
  shows "\<exists>es. trace (emit e w1) = trace w @ es \<and> noPreconditionEvent es"
proof -
  from assms obtain es1 where "trace w1 = trace w @ es1" "noPreconditionEvent es1" by blast
  with assms(2) show ?thesis by (intro exI [of _ "es1 @ [e]"]) simp
qed

lemma handleMaintenanceSyncClock_quiet:
  assumes "handleMaintenanceSyncClock env w = Some (rc, w')"
  shows "\<exists>es. trace w' = trace w @ es \<and> noPreconditionEvent es"
  using assms
  by (auto simp: handleMaintenanceSyncClock_def split: if_splits prod.splits option.splits
      dest: Parse_quiet)

lemma handleMaintenanceSyncDeviceInfo_quiet:
  assumes "handleMaintenanceSyncDeviceInfo env w = Some (rc, w')"
  shows "\<exists>es. trace w' = trace w @ es \<and> noPreconditionEvent es"
  using assms
  by (auto simp: handleMaintenanceSyncDeviceInfo_def split: if_splits prod.splits option.splits
      dest: Parse_quiet)

lemma handleMaintenanceSyncChangePassword_quiet:
  assumes "handleMaintenanceSyncChangePassword env w = Some (rc, w')"
  shows "\<exists>es. trace w' = trace w @ es \<and> noPreconditionEvent es"
  using assms
  by (auto simp: handleMaintenanceSyncChangePassword_def Usage_def
      split: if_splits prod.splits option.splits
      dest!: Parse_quiet intro!: quiet_emit)

lemma handleMaintenanceSyncHostname_quiet:
  assumes "handleMaintenanceSyncHostname env w = Some (rc, w')"
  shows "\<exists>es. trace w' = trace w @ es \<and> noPreconditionEvent es"
proof -
  obtain err w1 where p: "Parse (amtMaintenanceSyncHostnameCommand env)
      (drop 3 (commandLineArgs (flags w))) w = (err, w1)" by (metis prod.exhaust)
  from Parse_quiet [OF p] obtain es1 where
    es1: "trace w1 = trace w @ es1" "noPreconditionEvent es1" by blast
  from assms p have "\<exists>es. trace w' = trace w1 @ es \<and> noPreconditionEvent es"
    by (auto simp: handleMaintenanceSyncHostname_def Usage_def Let_def
        split: if_splits option.splits)
  with es1 show ?thesis by (auto intro: quiet_trans)
qed

lemma handleMaintenanceSyncIP_quiet:
  assumes "handleMaintenanceSyncIP env w = Some (rc, w')"
  shows "\<exists>es. trace w' = trace w @ es \<and> noPreconditionEvent es"
proof -
  from assms obtain fs where fs: "syncIPFlags (amtMaintenanceSyncIPCommand env) = Some fs"
    by (auto simp: handleMaintenanceSyncIP_def split: option.splits)
  obtain err w1 where p: "Parse fs (drop 3 (commandLineArgs (flags w))) w = (err, w1)"
    by (metis prod.exhaust)
  have q1: "\<exists>es. trace w1 = trace w @ es \<and> noPreconditionEvent es"
    using Parse_quiet [OF p] .
  define w3 where "w3 = emit Call_Interfaces (emit (Call_GetLANInterfaceSettings False) w1)"
  have q3: "\<exists>es. trace w3 = trace w @ es \<and> noPreconditionEvent es"
    unfolding w3_def using q1 by (auto intro!: quiet_emit)
  have q4: "\<exists>es. trace (scanInterfaces env None mac ifaces w3) = trace w @ es
      \<and> noPreconditionEvent es" for mac ifaces
    using q3 scanInterfaces_quiet by (rule quiet_trans)
  from assms fs p show ?thesis
    using q1 q3 q4 unfolding w3_def
    by (auto simp: handleMaintenanceSyncIP_def Usage_def Let_def
        split: if_splits option.splits prod.splits intro!: quiet_emit)
qed

lemma runSubCommand_quiet:
  assumes "runSubCommand env w = Some (rc, w')"
  shows "\<exists>es. trace w' = trace w @ es \<and> noPreconditionEvent es"
proof -
  have i: "\<exists>es. trace (emit (Invoke n) w) = trace w @ es \<and> noPreconditionEvent es" for n
    by (intro exI [of _ "[Invoke n]"]) simp
  have u: "\<exists>es. trace (printMaintenanceUsage w) = trace w @ es \<and> noPreconditionEvent es"
    by (intro exI [of _ "[PrintMaintenanceUsage]"]) (simp add: printMaintenanceUsage_def)
  from assms show ?thesis
    unfolding runSubCommand_def
    by (auto split: if_splits
        dest!: handleMaintenanceSyncClock_quiet handleMaintenanceSyncDeviceInfo_quiet
          handleMaintenanceSyncChangePassword_quiet handleMaintenanceSyncHostname_quiet
          handleMaintenanceSyncIP_quiet
        intro: quiet_trans [OF i] u)
qed

lemma isFlagEvent_not_call: "list_all isFlagEvent es \<Longrightarrow> list_all (\<lambda>e. \<not> isEngineOrEnumeratorCall e) es"
  by (induction es) (auto elim: isFlagEvent.elims)

section \<open>Lemmas on the address scan\<close>

lemma joinWith_nonempty: "x \<noteq> [] \<Longrightarrow> joinWith c (x # xs) \<noteq> []"
  by (cases xs) auto

lemma uitoa_nonempty: "uitoa n \<noteq> []"
  by (subst uitoa.simps) simp

lemma To4_length: "To4 ip = Some p4 \<Longrightarrow> length p4 = 4"
  by (auto simp: To4_def split: if_splits)

lemma IP_String_nonempty:
  assumes "To4 ip = Some p4"
  shows "IP_String ip \<noteq> []"
proof -
  from assms have "length p4 = 4" by (rule To4_length)
  then obtain a rest where "p4 = a # rest" by (cases p4) auto
  with assms show ?thesis
    by (auto simp: IP_String_def uitoa_nonempty joinWith_nonempty)
qed

lemma IpAddress_set_Netmask [simp]:
  "IpAddress (IpConfiguration (set_Netmask v f)) = IpAddress (IpConfiguration f)"
  by (simp add: set_Netmask_def)

lemma IpAddress_set_IpAddress [simp]:
  "IpAddress (IpConfiguration (set_IpAddress v f)) = v"
  by (simp add: set_IpAddress_def)

text \<open>
  The inner loop leaves the address unresolved exactly when no address qualifies; the
  outer loop, exactly when no interface matches.
\<close>

lemma scanAddrs_unresolved:
  "IpAddress (IpConfiguration (scanAddrs addrs f)) = []
     \<longleftrightarrow> IpAddress (IpConfiguration f) = [] \<and> \<not> list_ex qualifies addrs"
proof (induction addrs arbitrary: f)
  case Nil
  then show ?case by simp
next
  case (Cons a addrs)
  show ?case
  proof (cases a)
    case (IPNet ip msk)
    then show ?thesis
      using Cons.IH by (auto dest: IP_String_nonempty)
  next
    case (OtherAddr x)
    then show ?thesis using Cons.IH by simp
  qed
qed

lemma scanInterfaces_unresolved:
  assumes "IpAddress (IpConfiguration (flags w)) = []"
  shows "IpAddress (IpConfiguration (flags (scanInterfaces env None mac ifaces w))) = []
     \<longleftrightarrow> \<not> list_ex (matchingInterface env mac) ifaces"
  using assms
proof (induction ifaces arbitrary: w)
  case Nil
  then show ?case by simp
next
  case (Cons i rest)
  show ?case
  proof (cases "HardwareAddr_String (HardwareAddr i) = mac")
    case False
    with Cons show ?thesis by (simp add: matchingInterface_def)
  next
    case True
    let ?w2 = "(emit (Call_InterfaceAddrs i) w)
       \<lparr>flags := scanAddrs (fst (InterfaceAddrs env i)) (flags (emit (Call_InterfaceAddrs i) w))\<rparr>"
    have step: "scanInterfaces env None mac (i # rest) w = scanInterfaces env None mac rest ?w2"
      using True Cons.prems by (simp add: Let_def)
    show ?thesis
    proof (cases "list_ex qualifies (fst (InterfaceAddrs env i))")
      case q: True
      then have "IpAddress (IpConfiguration (flags ?w2)) \<noteq> []"
        by (simp add: scanAddrs_unresolved)
      then have "scanInterfaces env None mac rest ?w2 = ?w2"
        by (cases rest) simp_all
      with step q True \<open>IpAddress (IpConfiguration (flags ?w2)) \<noteq> []\<close> show ?thesis
        by (simp add: matchingInterface_def)
    next
      case q: False
      then have "IpAddress (IpConfiguration (flags ?w2)) = []"
        using Cons.prems by (simp add: scanAddrs_unresolved)
      from Cons.IH [OF this] step q show ?thesis
        by (simp add: matchingInterface_def)
    qed
  qed
qed

text \<open>
  The error of \<open>InterfaceAddrs\<close> has no influence on the scan, and the scan logs
  nothing.
\<close>

lemma scanInterfaces_ignores_error:
  "scanInterfaces (env\<lparr>InterfaceAddrs := (\<lambda>i. (fst (InterfaceAddrs env i), x i))\<rparr>) err mac ifaces w
     = scanInterfaces env err mac ifaces w"
proof (induction ifaces arbitrary: w)
  case Nil
  show ?case by simp
next
  case (Cons i rest)
  show ?case
    by (simp only: scanInterfaces.simps Let_def Cons.IH) simp
qed

lemma scanInterfaces_LogError:
  "LogError e \<in> set (trace (scanInterfaces env err mac ifaces w))
     \<longleftrightarrow> LogError e \<in> set (trace w)"
proof (induction ifaces arbitrary: w)
  case Nil
  show ?case by simp
next
  case (Cons i rest)
  show ?case
    by (simp only: scanInterfaces.simps Let_def Cons.IH split: if_splits) simp
qed

text \<open>
  What the inner loop leaves behind: the last qualifying address of the list.
\<close>

lemma scanAddrs_none:
  "\<not> list_ex qualifies addrs \<Longrightarrow> scanAddrs addrs f = f"
  by (induction addrs f rule: scanAddrs.induct) auto

lemma scanAddrs_takes_last:
  assumes "filter qualifies addrs \<noteq> []" "last (filter qualifies addrs) = IPNet ip msk"
  shows "IpAddress (IpConfiguration (scanAddrs addrs f)) = IP_String ip
     \<and> Netmask (IpConfiguration (scanAddrs addrs f)) = IP_String msk"
  using assms
proof (induction addrs arbitrary: f)
  case Nil
  then show ?case by simp
next
  case (Cons a addrs)
  show ?case
  proof (cases "filter qualifies addrs = []")
    case True
    then have none: "\<not> list_ex qualifies addrs"
      by (simp add: list_ex_iff filter_empty_conv)
    with Cons.prems True have "a = IPNet ip msk" "qualifies a"
      by (auto split: if_splits)
    with none show ?thesis
      by (simp add: scanAddrs_none set_Netmask_def set_IpAddress_def)
  next
    case False
    with Cons.prems have l: "last (filter qualifies addrs) = IPNet ip msk"
      by (auto split: if_splits)
    from Cons.IH [OF False l] show ?thesis
      by (cases a) simp_all
  qed
qed

text \<open>
  A mask that has neither four nor sixteen bytes is written as no address at all: the
  text of the empty mask is \<open><nil>\<close>.
\<close>

lemma IP_String_nil_mask: "IP_String [] = ''<nil>'' \<and> ParseIP ''<nil>'' = None"
  by (simp add: IP_String_def ParseIP_def)

section \<open>Dotted-decimal text is accepted by ParseIP\<close>

lemma digit_char:
  assumes "n < 10"
  shows "isDigit (''0123456789'' ! n)" and "of_char (''0123456789'' ! n) - 48 = n"
proof -
  from assms consider "n = 0" | "n = 1" | "n = 2" | "n = 3" | "n = 4" | "n = 5" | "n = 6"
    | "n = 7" | "n = 8" | "n = 9" by atomize_elim arith
  then have "isDigit (''0123456789'' ! n) \<and> of_char (''0123456789'' ! n) - 48 = n"
    by cases (simp_all add: isDigit_def)
  then show "isDigit (''0123456789'' ! n)" and "of_char (''0123456789'' ! n) - 48 = n"
    by simp_all
qed

lemma digit_char_zero:
  assumes "n < 10" "''0123456789'' ! n = CHR ''0''"
  shows "n = 0"
proof -
  from assms(1) consider "n = 0" | "n = 1" | "n = 2" | "n = 3" | "n = 4" | "n = 5" | "n = 6"
    | "n = 7" | "n = 8" | "n = 9" by atomize_elim arith
  then show ?thesis using assms(2) by cases simp_all
qed

lemma uitoa_small: "n < 10 \<Longrightarrow> uitoa n = [''0123456789'' ! n]"
  by (subst uitoa.simps) simp

lemma uitoa_large: "\<not> n < 10 \<Longrightarrow> uitoa n = uitoa (n div 10) @ [''0123456789'' ! (n mod 10)]"
  by (subst uitoa.simps) simp

lemma uitoa_digits: "c \<in> set (uitoa n) \<Longrightarrow> isDigit c"
proof (induction n rule: uitoa.induct)
  case (1 n)
  show ?case
  proof (cases "n < 10")
    case True
    with "1.prems" show ?thesis by (simp add: uitoa_small digit_char)
  next
    case False
    with "1.prems" "1.IH" show ?thesis
      by (auto simp: uitoa_large digit_char)
  qed
qed

lemma uitoa_hd_zero: "hd (uitoa n) = CHR ''0'' \<Longrightarrow> n = 0"
proof (induction n rule: uitoa.induct)
  case (1 n)
  show ?case
  proof (cases "n < 10")
    case True
    with "1.prems" show ?thesis by (simp add: uitoa_small digit_char_zero)
  next
    case False
    with "1.prems" have "hd (uitoa (n div 10)) = CHR ''0''"
      by (simp add: uitoa_large uitoa_nonempty)
    with "1.IH" False have "n div 10 = 0" by simp
    with False show ?thesis by simp
  qed
qed

lemma dtoi_loop_digit:
  "m < 10 \<Longrightarrow> x * 10 + m < big \<Longrightarrow>
   dtoi_loop x j ((''0123456789'' ! m) # rest) = dtoi_loop (x * 10 + m) (j + 1) rest"
  by (simp add: digit_char Let_def)

lemma dtoi_loop_uitoa:
  "acc * 10 ^ length (uitoa n) + n < big \<Longrightarrow>
   dtoi_loop acc i (uitoa n @ rest)
     = dtoi_loop (acc * 10 ^ length (uitoa n) + n) (i + length (uitoa n)) rest"
proof (induction n arbitrary: acc i rest rule: uitoa.induct)
  case (1 n)
  show ?case
  proof (cases "n < 10")
    case True
    with "1.prems" show ?thesis
      by (simp add: uitoa_small digit_char Let_def)
  next
    case False
    let ?l = "length (uitoa (n div 10))"
    let ?d = "''0123456789'' ! (n mod 10)"
    have len: "length (uitoa n) = Suc ?l" using False by (simp add: uitoa_large)
    have bound: "(acc * 10 ^ ?l + n div 10) * 10 + n mod 10 = acc * 10 ^ length (uitoa n) + n"
      by (simp add: len algebra_simps)
    have "x < big" if "x * 10 + r < big" for x r :: nat using that by linarith
    with "1.prems" bound have small: "acc * 10 ^ ?l + n div 10 < big" by metis
    have "dtoi_loop acc i (uitoa n @ rest) = dtoi_loop acc i (uitoa (n div 10) @ (?d # rest))"
      using False by (simp add: uitoa_large)
    also have "\<dots> = dtoi_loop (acc * 10 ^ ?l + n div 10) (i + ?l) (?d # rest)"
      using "1.IH" [OF False small] .
    also have "\<dots> = dtoi_loop ((acc * 10 ^ ?l + n div 10) * 10 + n mod 10) (i + ?l + 1) rest"
    proof (rule dtoi_loop_digit)
      show "n mod 10 < 10" by simp
      show "(acc * 10 ^ ?l + n div 10) * 10 + n mod 10 < big"
        using "1.prems" by (simp only: bound)
    qed
    finally show ?thesis by (simp only: bound len) simp
  qed
qed

lemma dtoi_uitoa:
  assumes "n < big" and "rest = [] \<or> \<not> isDigit (hd rest)"
  shows "dtoi (uitoa n @ rest) = (n, length (uitoa n), True)"
proof -
  have "dtoi_loop 0 0 (uitoa n @ rest) = dtoi_loop n (length (uitoa n)) rest"
    using dtoi_loop_uitoa [of 0 n 0 rest] assms(1) by simp
  also have "\<dots> = (n, length (uitoa n), True)"
    using assms(2) by (cases rest) simp_all
  finally show ?thesis
    by (simp add: dtoi_def uitoa_nonempty)
qed

lemma joinWith_concat: "joinWith c (x # xs) = x @ concat (map (\<lambda>y. c # y) xs)"
  by (induction xs arbitrary: x) simp_all

lemma isDigit_not_separator: "isDigit c \<Longrightarrow> c \<noteq> CHR ''.'' \<and> c \<noteq> CHR '':''"
  by (auto simp: isDigit_def)

lemma find_after_prefix:
  "(\<And>x. x \<in> set xs \<Longrightarrow> \<not> P x) \<Longrightarrow> P y \<Longrightarrow> List.find P (xs @ y # ys) = Some y"
  by (induction xs) simp_all

lemma unat_byte_bound: "unat (b :: byte) < big"
proof -
  have "unat b < 2 ^ LENGTH(8)" by (rule unsigned_less)
  then show ?thesis by (simp add: big_def)
qed

lemma unat_byte_le: "\<not> unat (b :: byte) > 0xFF"
proof -
  have "unat b < 2 ^ LENGTH(8)" by (rule unsigned_less)
  then show ?thesis by simp
qed

lemma dotted_tail_start:
  "concat (map (\<lambda>b. CHR ''.'' # uitoa (unat b)) (bs :: byte list)) = []
     \<or> \<not> isDigit (hd (concat (map (\<lambda>b. CHR ''.'' # uitoa (unat b)) bs)))"
  by (cases bs) (simp_all add: isDigit_def)

lemma parseIPv4_octet_step:
  fixes b :: byte
  assumes "first \<or> sep = [CHR ''.'']" "\<not> first \<or> sep = []"
    and "rest = [] \<or> \<not> isDigit (hd rest)"
  shows "parseIPv4_octets (Suc k) first (sep @ uitoa (unat b) @ rest)
     = map_option ((#) b) (parseIPv4_octets k False rest)"
proof -
  let ?s1 = "uitoa (unat b) @ rest"
  have d: "dtoi ?s1 = (unat b, length (uitoa (unat b)), True)"
    using unat_byte_bound assms(3) by (rule dtoi_uitoa)
  have z: "\<not> (length (uitoa (unat b)) > 1 \<and> hd ?s1 = CHR ''0'')"
  proof
    assume a: "length (uitoa (unat b)) > 1 \<and> hd ?s1 = CHR ''0''"
    then have "hd (uitoa (unat b)) = CHR ''0''" by (simp add: uitoa_nonempty)
    then have "unat b = 0" by (rule uitoa_hd_zero)
    then have "length (uitoa (unat b)) = 1" by (simp add: uitoa_small)
    with a show False by simp
  qed
  have ne: "sep @ ?s1 \<noteq> []" by (simp add: uitoa_nonempty)
  show ?thesis
  proof (cases first)
    case True
    with assms have "sep = []" by simp
    with True d z unat_byte_le [of b] ne show ?thesis by (auto simp: uitoa_nonempty)
  next
    case False
    with assms have "sep = [CHR ''.'']" by simp
    with False d z unat_byte_le [of b] show ?thesis by (auto simp: uitoa_nonempty)
  qed
qed

lemma parseIPv4_octets_tail:
  "parseIPv4_octets (length bs) False (concat (map (\<lambda>b. CHR ''.'' # uitoa (unat b)) bs))
     = Some (bs :: byte list)"
proof (induction bs)
  case Nil
  show ?case by simp
next
  case (Cons b bs)
  let ?t = "concat (map (\<lambda>b. CHR ''.'' # uitoa (unat b)) bs)"
  have "parseIPv4_octets (Suc (length bs)) False ([CHR ''.''] @ uitoa (unat b) @ ?t)
      = map_option ((#) b) (parseIPv4_octets (length bs) False ?t)"
    by (rule parseIPv4_octet_step [OF _ _ dotted_tail_start]) simp_all
  with Cons.IH show ?case by simp
qed

lemma parseIPv4_dotted:
  assumes "length p = 4"
  shows "parseIPv4 (dotted p) = Some (v4InV6Prefix @ p)"
proof -
  from assms obtain a bs where p: "p = a # bs" and l: "length bs = 3"
    by (cases p) auto
  let ?t = "concat (map (\<lambda>b. CHR ''.'' # uitoa (unat b)) bs)"
  have k: "Suc (Suc (Suc (Suc 0))) = Suc (length bs)" using l by simp
  have "parseIPv4_octets (Suc (length bs)) True ([] @ uitoa (unat a) @ ?t)
      = map_option ((#) a) (parseIPv4_octets (length bs) False ?t)"
    by (rule parseIPv4_octet_step [OF _ _ dotted_tail_start]) simp_all
  also have "\<dots> = Some p"
    by (simp only: parseIPv4_octets_tail option.map p)
  finally have r: "parseIPv4_octets (Suc (length bs)) True (uitoa (unat a) @ ?t) = Some p"
    by (simp only: append_Nil)
  have d: "dotted p = uitoa (unat a) @ ?t"
    using p by (simp add: dotted_def joinWith_concat comp_def)
  show ?thesis
    by (simp only: parseIPv4_def k d r option.map)
qed

lemma ParseIP_dotted:
  assumes "length p = 4"
  shows "ParseIP (dotted p) = Some (v4InV6Prefix @ p)"
proof -
  from assms obtain a b bs where p: "p = a # b # bs"
    by (cases p; cases "tl p") auto
  let ?t = "uitoa (unat b) @ concat (map (\<lambda>b. CHR ''.'' # uitoa (unat b)) bs)"
  have d: "dotted p = uitoa (unat a) @ CHR ''.'' # ?t"
    using p by (simp add: dotted_def joinWith_concat comp_def)
  have "List.find (\<lambda>c. c = CHR ''.'' \<or> c = CHR '':'') (uitoa (unat a) @ CHR ''.'' # ?t)
      = Some (CHR ''.'')"
    by (rule find_after_prefix) (auto dest: uitoa_digits isDigit_not_separator)
  then show ?thesis
    using parseIPv4_dotted [OF assms] by (simp add: ParseIP_def d [symmetric])
qed

lemma IP_String_To4: "To4 ip = Some p4 \<Longrightarrow> IP_String ip = dotted p4"
  by (auto simp: IP_String_def dotted_def To4_def split: if_splits)

lemma isIPText_dotted: "length p = 4 \<Longrightarrow> isIPText (dotted p)"
  by (simp add: isIPText_def ParseIP_dotted)

section \<open>Validated fields stay validated\<close>

lemma syncIPFlags_formal:
  assumes "syncIPFlags fs0 = Some fs" "formal fs name = Some fv"
  shows "formal fs0 name = Some fv
     \<or> SetValue fv = validateIP set_IpAddress \<or> SetValue fv = validateIP set_Netmask
     \<or> SetValue fv = validateIP set_Gateway \<or> SetValue fv = validateIP set_PrimaryDns
     \<or> SetValue fv = validateIP set_SecondaryDns"
  using assms
  by (auto simp: syncIPFlags_def Func_def Var_def bind_eq_Some_conv split: if_splits)

lemma fieldsAreIP_setters:
  assumes "fieldsAreIP (IpConfiguration f)" "isIPText v"
  shows "fieldsAreIP (IpConfiguration (set_IpAddress v f))"
    and "fieldsAreIP (IpConfiguration (set_Netmask v f))"
    and "fieldsAreIP (IpConfiguration (set_Gateway v f))"
    and "fieldsAreIP (IpConfiguration (set_PrimaryDns v f))"
    and "fieldsAreIP (IpConfiguration (set_SecondaryDns v f))"
  using assms
  by (simp_all add: fieldsAreIP_def configFields_def set_IpAddress_def set_Netmask_def
      set_Gateway_def set_PrimaryDns_def set_SecondaryDns_def)

lemma validateIP_keeps_fieldsAreIP:
  assumes "fieldsAreIP (IpConfiguration f)"
    and "a = set_IpAddress \<or> a = set_Netmask \<or> a = set_Gateway \<or> a = set_PrimaryDns
       \<or> a = set_SecondaryDns"
  shows "fieldsAreIP (IpConfiguration (snd (validateIP a v f)))"
  using assms
  by (auto simp: validateIP_def isIPText_def intro!: fieldsAreIP_setters)

lemma parseOne_keeps_fieldsAreIP:
  assumes fs: "syncIPFlags fs0 = Some fs"
    and others: "\<forall>name fv v f. formal fs0 name = Some fv
        \<longrightarrow> IpConfiguration (snd (SetValue fv v f)) = IpConfiguration f"
    and inv: "fieldsAreIP (IpConfiguration (flags w))"
    and one: "parseOne fs args w = (r, args', w')"
  shows "fieldsAreIP (IpConfiguration (flags w'))"
  using one
proof (cases rule: parseOne_cases)
  case unchanged
  with inv show ?thesis by simp
next
  case (failed m)
  with inv show ?thesis by (simp add: failf_def)
next
  case usage
  with inv show ?thesis by simp
next
  case (setting name flag v msg rest)
  from setFlag_flags [OF setting(2)]
  have w': "flags w' = snd (SetValue flag v (flags w))" .
  from syncIPFlags_formal [OF fs setting(1)] show ?thesis
  proof (elim disjE)
    assume "formal fs0 name = Some flag"
    with others have "IpConfiguration (snd (SetValue flag v (flags w))) = IpConfiguration (flags w)"
      by blast
    with inv w' show ?thesis by simp
  qed (use inv w' in \<open>simp_all add: validateIP_keeps_fieldsAreIP\<close>)
qed

lemma Parse_keeps_fieldsAreIP:
  assumes fs: "syncIPFlags fs0 = Some fs"
    and others: "\<forall>name fv v f. formal fs0 name = Some fv
        \<longrightarrow> IpConfiguration (snd (SetValue fv v f)) = IpConfiguration f"
    and inv: "fieldsAreIP (IpConfiguration (flags w))"
  shows "fieldsAreIP (IpConfiguration (flags (snd (Parse fs args w))))"
  by (rule Parse_invariant [where I = "\<lambda>x. fieldsAreIP (IpConfiguration (flags x))"])
     (use inv in \<open>auto intro: parseOne_keeps_fieldsAreIP [OF fs others]\<close>)

lemma scanAddrs_keeps_fieldsAreIP:
  assumes "list_all hasIPv4Mask addrs" "fieldsAreIP (IpConfiguration f)"
  shows "fieldsAreIP (IpConfiguration (scanAddrs addrs f))"
  using assms
proof (induction addrs arbitrary: f)
  case Nil
  then show ?case by simp
next
  case (Cons a addrs)
  show ?case
  proof (cases a)
    case (OtherAddr x)
    with Cons show ?thesis by simp
  next
    case (IPNet ip msk)
    show ?thesis
    proof (cases "To4 ip \<noteq> None \<and> \<not> IsLoopback ip")
      case False
      with IPNet Cons show ?thesis by auto
    next
      case True
      then obtain p4 where p4: "To4 ip = Some p4" by auto
      from True IPNet Cons.prems have m: "length msk = 4" by auto
      then have "To4 msk = Some msk" by (simp add: To4_def)
      then have "isIPText (IP_String msk)"
        using m by (simp add: IP_String_To4 isIPText_dotted)
      moreover have "isIPText (IP_String ip)"
        using p4 by (simp add: IP_String_To4 isIPText_dotted To4_length)
      ultimately have "fieldsAreIP (IpConfiguration
          (set_Netmask (IP_String msk) (set_IpAddress (IP_String ip) f)))"
        using Cons.prems(2) by (simp add: fieldsAreIP_setters)
      with Cons.IH Cons.prems(1) True IPNet show ?thesis by simp
    qed
  qed
qed

lemma scanInterfaces_keeps_fieldsAreIP:
  assumes "\<forall>i. list_all hasIPv4Mask (fst (InterfaceAddrs env i))"
    and "fieldsAreIP (IpConfiguration (flags w))"
  shows "fieldsAreIP (IpConfiguration (flags (scanInterfaces env err mac ifaces w)))"
  using assms(2)
proof (induction ifaces arbitrary: w)
  case Nil
  then show ?case by simp
next
  case (Cons i rest)
  let ?w1 = "emit (Call_InterfaceAddrs i) w"
  have s: "fieldsAreIP (IpConfiguration (scanAddrs (fst (InterfaceAddrs env i)) (flags w)))"
    using assms(1) Cons.prems by (simp add: scanAddrs_keeps_fieldsAreIP)
  have 1: "fieldsAreIP (IpConfiguration (flags (scanInterfaces env err mac rest w)))"
    by (rule Cons.IH [OF Cons.prems])
  have 2: "fieldsAreIP (IpConfiguration (flags (scanInterfaces env err mac rest ?w1)))"
    by (rule Cons.IH) (simp add: Cons.prems)
  have 3: "fieldsAreIP (IpConfiguration (flags (scanInterfaces env err mac rest
      (?w1\<lparr>flags := scanAddrs (fst (InterfaceAddrs env i)) (flags ?w1)\<rparr>))))"
    by (rule Cons.IH) (simp add: s)
  show ?case using 1 2 3 Cons.prems by (cases err) (simp_all add: Let_def)
qed

section \<open>The classifier on a value without a dash\<close>

lemma FindString_skip: "CHR ''-'' \<notin> set xs \<Longrightarrow> FindString (xs @ ys) = FindString ys"
  by (induction xs) (auto simp: matchHere_def)

lemma lowerhex_no_dash: "k < 16 \<Longrightarrow> lowerhex ! k \<noteq> CHR ''-''"
proof -
  assume "k < 16"
  then consider "k = 0" | "k = 1" | "k = 2" | "k = 3" | "k = 4" | "k = 5" | "k = 6" | "k = 7"
    | "k = 8" | "k = 9" | "k = 10" | "k = 11" | "k = 12" | "k = 13" | "k = 14" | "k = 15"
    by atomize_elim arith
  then show ?thesis by cases (simp_all add: lowerhex_def)
qed

lemma quoteByte_no_dash: "c \<noteq> CHR ''-'' \<Longrightarrow> CHR ''-'' \<notin> set (quoteByte c)"
proof -
  assume c: "c \<noteq> CHR ''-''"
  have "(of_char c :: nat) < 256" by (cases c) simp
  then have "(of_char c :: nat) div 16 < 16" by arith
  then have "lowerhex ! ((of_char c :: nat) div 16) \<noteq> CHR ''-''"
    and "lowerhex ! ((of_char c :: nat) mod 16) \<noteq> CHR ''-''"
    by (simp_all add: lowerhex_no_dash)
  with c show ?thesis
    by (auto simp: quoteByte_def Let_def)
qed

lemma Quote_no_dash: "CHR ''-'' \<notin> set v \<Longrightarrow> CHR ''-'' \<notin> set (Quote v)"
proof -
  assume v: "CHR ''-'' \<notin> set v"
  have "CHR ''-'' \<notin> set (quoteByte c)" if "c \<in> set v" for c
    using that v by (intro quoteByte_no_dash) auto
  then show ?thesis by (auto simp: Quote_def)
qed

text \<open>
  The classifier finds the flag when the malformed value has no dash in it.
\<close>

lemma syncIPErrorCode_value_without_dash:
  assumes "CHR ''-'' \<notin> set v"
  shows "syncIPErrorCode (''invalid value '' @ Quote v @ '' for flag -netmask: ''
            @ ''not a valid ip address'') = MissingOrIncorrectNetworkMask"
    and "syncIPErrorCode (''invalid value '' @ Quote v @ '' for flag -staticip: ''
            @ ''not a valid ip address'') = MissingOrIncorrectStaticIP"
    and "syncIPErrorCode (''invalid value '' @ Quote v @ '' for flag -gateway: ''
            @ ''not a valid ip address'') = MissingOrIncorrectGateway"
    and "syncIPErrorCode (''invalid value '' @ Quote v @ '' for flag -primarydns: ''
            @ ''not a valid ip address'') = MissingOrIncorrectPrimaryDNS"
    and "syncIPErrorCode (''invalid value '' @ Quote v @ '' for flag -secondarydns: ''
            @ ''not a valid ip address'') = MissingOrIncorrectSecondaryDNS"
proof -
  have skip: "FindString (''invalid value '' @ Quote v @ ys) = FindString ys" for ys
  proof -
    have "CHR ''-'' \<notin> set (''invalid value '' @ Quote v)"
      using Quote_no_dash [OF assms] by simp
    then have "FindString ((''invalid value '' @ Quote v) @ ys) = FindString ys"
      by (rule FindString_skip)
    then show ?thesis by simp
  qed
  show "syncIPErrorCode (''invalid value '' @ Quote v @ '' for flag -netmask: ''
            @ ''not a valid ip address'') = MissingOrIncorrectNetworkMask"
    unfolding syncIPErrorCode_def skip by (simp add: matchHere_def)
  show "syncIPErrorCode (''invalid value '' @ Quote v @ '' for flag -staticip: ''
            @ ''not a valid ip address'') = MissingOrIncorrectStaticIP"
    unfolding syncIPErrorCode_def skip by (simp add: matchHere_def)
  show "syncIPErrorCode (''invalid value '' @ Quote v @ '' for flag -gateway: ''
            @ ''not a valid ip address'') = MissingOrIncorrectGateway"
    unfolding syncIPErrorCode_def skip by (simp add: matchHere_def)
  show "syncIPErrorCode (''invalid value '' @ Quote v @ '' for flag -primarydns: ''
            @ ''not a valid ip address'') = MissingOrIncorrectPrimaryDNS"
    unfolding syncIPErrorCode_def skip by (simp add: matchHere_def)
  show "syncIPErrorCode (''invalid value '' @ Quote v @ '' for flag -secondarydns: ''
            @ ''not a valid ip address'') = MissingOrIncorrectSecondaryDNS"
    unfolding syncIPErrorCode_def skip by (simp add: matchHere_def)
qed

section \<open>Evaluation on the example data\<close>

lemma Parse_nil: "Parse fs [] w = (None, w)"
  by (subst Parse.simps) (simp add: parseOne_def)

lemma example_synchostname_fails:
  "runSubCommand failingHostnameEnv
     ((exampleWorld [''rpc'', ''maintenance'', ''synchostname''])
        \<lparr>flags := (flags (exampleWorld [''rpc'', ''maintenance'', ''synchostname'']))
                    \<lparr>SubCommand := ''synchostname''\<rparr>\<rparr>)
   = Some (OSNetworkInterfacesLookupFailed,
       \<lparr>flags = (flags (exampleWorld [''rpc'', ''maintenance'', ''synchostname'']))
          \<lparr>SubCommand := ''synchostname'',
           HostnameInfo := \<lparr>DnsSuffixOS = ''corp.example'', Hostname = []\<rparr>\<rparr>,
        trace = [Invoke ''synchostname'', Call_GetOSDNSSuffix, Call_Hostname,
                 LogError ''OS hostname is not available'']\<rparr>)"
  by (simp add: runSubCommand_def handleMaintenanceSyncHostname_def failingHostnameEnv_def
      exampleEnv_def exampleWorld_def Parse_nil Let_def emit_def set_DnsSuffixOS_def
      set_Hostname_def)

lemma example_syncclock_succeeds:
  "runSubCommand exampleEnv
     ((exampleWorld [''rpc'', ''maintenance'', ''syncclock''])
        \<lparr>flags := (flags (exampleWorld [''rpc'', ''maintenance'', ''syncclock'']))
           \<lparr>SubCommand := commandLineArgs
              (flags (exampleWorld [''rpc'', ''maintenance'', ''syncclock''])) ! 2\<rparr>\<rparr>)
   = Some (Success,
       \<lparr>flags = (flags (exampleWorld [''rpc'', ''maintenance'', ''syncclock'']))
          \<lparr>SubCommand := ''syncclock''\<rparr>,
        trace = [Invoke ''syncclock'']\<rparr>)"
  by (simp add: runSubCommand_def handleMaintenanceSyncClock_def exampleEnv_def exampleWorld_def
      Parse_nil emit_def)

lemma example_syncIPFlags:
  "syncIPFlags (amtMaintenanceSyncIPCommand exampleEnv) = Some exampleSyncIPFlagSet"
  by (simp add: syncIPFlags_def exampleEnv_def exampleFlagSet_def Func_def Var_def
      exampleSyncIPFlagSet_def)

lemma ParseIP_10_0_0_5: "ParseIP ''10.0.0.5'' \<noteq> None"
  by (simp add: ParseIP_def parseIPv4_def dtoi_def isDigit_def big_def)

lemma parseOne_staticip:
  "parseOne exampleSyncIPFlagSet [''-staticip=10.0.0.5''] w
     = ((True, None), [], w\<lparr>flags := set_IpAddress ''10.0.0.5'' (flags w)\<rparr>)"
  by (simp add: parseOne_def splitNameValue_def exampleSyncIPFlagSet_def setFlag_def
      validateIP_def ParseIP_10_0_0_5 Let_def)

lemma Parse_staticip:
  "Parse exampleSyncIPFlagSet [''-staticip=10.0.0.5''] w
     = (None, w\<lparr>flags := set_IpAddress ''10.0.0.5'' (flags w)\<rparr>)"
  by (subst Parse.simps) (simp add: parseOne_staticip Parse_nil)

lemma example_HardwareAddr_String:
  "HardwareAddr_String [0x0a, 0x0b, 0x0c, 0x0d, 0x0e, 0x0f] = ''0a:0b:0c:0d:0e:0f''"
  "HardwareAddr_String [] = []"
  by (simp_all add: HardwareAddr_String_def hexByte_def lowerhex_def)

lemma example_IP_String:
  "IP_String [192, 168, 1, 20] = ''192.168.1.20''"
  "IP_String [255, 255, 255, 0] = ''255.255.255.0''"
  "IP_String [10, 0, 0, 5] = ''10.0.0.5''"
  "IP_String [255, 0, 0, 0] = ''255.0.0.0''"
  by (simp_all add: IP_String_def To4_def uitoa.simps)

lemma example_qualifies:
  "To4 [192, 168, 1, 20] \<noteq> None" "\<not> IsLoopback [192, 168, 1, 20]"
  "To4 [10, 0, 0, 5] \<noteq> None" "\<not> IsLoopback [10, 0, 0, 5]"
  by (simp_all add: To4_def IsLoopback_def)

lemma example_syncip_derives:
  "handleMaintenanceSyncIP exampleEnv (exampleWorld [''rpc'', ''maintenance'', ''syncip''])
   = Some (Success,
       \<lparr>flags = (flags (exampleWorld [''rpc'', ''maintenance'', ''syncip'']))
          \<lparr>IpConfiguration :=
             \<lparr>IpAddress = ''192.168.1.20'', Netmask = ''255.255.255.0'', Gateway = [],
              PrimaryDns = [], SecondaryDns = []\<rparr>\<rparr>,
        trace = [Call_GetLANInterfaceSettings False, Call_Interfaces,
                 Call_InterfaceAddrs (exampleInterface ''eth0'' [0x0a, 0x0b, 0x0c, 0x0d, 0x0e, 0x0f])]\<rparr>)"
proof -
  let ?v = "exampleWorld [''rpc'', ''maintenance'', ''syncip'']"
  have p: "Parse exampleSyncIPFlagSet (drop 3 (commandLineArgs (flags ?v))) ?v = (None, ?v)"
    by (simp add: exampleWorld_def Parse_nil)
  show ?thesis
    unfolding handleMaintenanceSyncIP_def example_syncIPFlags
    by (simp add: p)
       (simp add: exampleWorld_def exampleEnv_def exampleSettings_def
         exampleInterface_def example_HardwareAddr_String example_IP_String example_qualifies
         emit_def set_IpAddress_def set_Netmask_def Let_def)
qed

lemma handleMaintenanceSyncIP_parse_error:
  assumes "syncIPFlags (amtMaintenanceSyncIPCommand env) = Some fs"
    and "\<not> length (commandLineArgs (flags w)) < 3"
    and "Parse fs (drop 3 (commandLineArgs (flags w))) w = (Some msg, w1)"
  shows "handleMaintenanceSyncIP env w = Some (syncIPErrorCode msg, Usage fs w1)"
  using assms by (simp add: handleMaintenanceSyncIP_def)

lemma ParseIP_bad_netmask: "ParseIP ''255.255.255-0'' = None"
  by (simp add: ParseIP_def parseIPv4_def dtoi_def isDigit_def big_def)

lemma ParseIP_abc: "ParseIP ''abc'' = None"
  by (simp add: ParseIP_def)

lemma Parse_bad_netmask:
  "ParseIP v = None \<Longrightarrow>
   Parse exampleSyncIPFlagSet [''-netmask'', v] w
     = (Some (''invalid value '' @ Quote v @ '' for flag -netmask: '' @ ''not a valid ip address''),
        failf exampleSyncIPFlagSet
          (''invalid value '' @ Quote v @ '' for flag -netmask: '' @ ''not a valid ip address'') w)"
  by (subst Parse.simps)
     (simp add: parseOne_def splitNameValue_def exampleSyncIPFlagSet_def setFlag_def
       validateIP_def Let_def)

lemma Parse_undefined_flag:
  "Parse exampleSyncIPFlagSet [''-netmask:''] w
     = (Some ''flag provided but not defined: -netmask:'',
        failf exampleSyncIPFlagSet ''flag provided but not defined: -netmask:'' w)"
  by (subst Parse.simps)
     (simp add: parseOne_def splitNameValue_def exampleSyncIPFlagSet_def Let_def)

lemma syncIPErrorCode_bad_netmask:
  "syncIPErrorCode (''invalid value '' @ Quote ''255.255.255-0'' @ '' for flag -netmask: ''
        @ ''not a valid ip address'')
     = IncorrectCommandLineParameters"
  by (simp add: syncIPErrorCode_def matchHere_def Quote_def quoteByte_def)

lemma syncIPErrorCode_abc:
  "syncIPErrorCode (''invalid value '' @ Quote ''abc'' @ '' for flag -netmask: ''
        @ ''not a valid ip address'')
     = MissingOrIncorrectNetworkMask"
  by (simp add: syncIPErrorCode_def matchHere_def Quote_def quoteByte_def)

lemma syncIPErrorCode_undefined_flag:
  "syncIPErrorCode ''flag provided but not defined: -netmask:'' = MissingOrIncorrectNetworkMask"
  by (simp add: syncIPErrorCode_def matchHere_def)

lemma replicate_pred_numeral: "replicate (numeral k) x = x # replicate (pred_numeral k) x"
  by (simp add: numeral_eq_Suc)

lemma ParseIP_loopback6: "ParseIP ''::1'' = Some IPv6loopback"
  by (simp add: ParseIP_def parseIPv6_def parseIPv6_loop.simps xtoi_def hexVal_def big_def
      IPv6loopback_def replicate_pred_numeral)

lemma Parse_staticip_loopback6:
  "Parse exampleSyncIPFlagSet [''-staticip'', ''::1''] w
     = (None, w\<lparr>flags := set_IpAddress ''::1'' (flags w)\<rparr>)"
  by (subst Parse.simps)
     (simp add: parseOne_def splitNameValue_def exampleSyncIPFlagSet_def setFlag_def
       validateIP_def ParseIP_loopback6 Let_def Parse_nil)

section \<open>The claims\<close>

text \<open>
  Claim C1. With no static IP supplied, and the engine query and the enumeration
  succeeding, the resolver scans the interfaces in order and, on the first interface whose
  hardware address is the engine's, takes the first address that is IPv4 and not
  loopback. The code does not: the inner loop has no \<open>break\<close>, so on an interface with
  the addresses 192.168.1.20/255.255.255.0 and 10.0.0.5/255.0.0.0, in this order, the
  handler returns the second, 10.0.0.5 with the mask 255.0.0.0. (Lemma
  \<open>scanAddrs_takes_last\<close> has the general statement: the last qualifying address of the
  interface is the one that stays.)
\<close>

theorem syncip_takes_last_address_of_interface:
  "handleMaintenanceSyncIP twoAddressEnv (exampleWorld [''rpc'', ''maintenance'', ''syncip''])
   = Some (Success,
       \<lparr>flags = (flags (exampleWorld [''rpc'', ''maintenance'', ''syncip'']))
          \<lparr>IpConfiguration :=
             \<lparr>IpAddress = ''10.0.0.5'', Netmask = ''255.0.0.0'', Gateway = [],
              PrimaryDns = [], SecondaryDns = []\<rparr>\<rparr>,
        trace = [Call_GetLANInterfaceSettings False, Call_Interfaces,
                 Call_InterfaceAddrs (exampleInterface ''eth0'' [0x0a, 0x0b, 0x0c, 0x0d, 0x0e, 0x0f])]\<rparr>)"
proof -
  let ?v = "exampleWorld [''rpc'', ''maintenance'', ''syncip'']"
  have fs: "syncIPFlags (amtMaintenanceSyncIPCommand twoAddressEnv) = Some exampleSyncIPFlagSet"
    using example_syncIPFlags by (simp add: twoAddressEnv_def exampleEnv_def)
  have p: "Parse exampleSyncIPFlagSet (drop 3 (commandLineArgs (flags ?v))) ?v = (None, ?v)"
    by (simp add: exampleWorld_def Parse_nil)
  show ?thesis
    unfolding handleMaintenanceSyncIP_def fs
    by (simp add: p)
       (simp add: exampleWorld_def twoAddressEnv_def exampleEnv_def exampleSettings_def
         exampleInterface_def example_HardwareAddr_String example_IP_String example_qualifies
         emit_def set_IpAddress_def set_Netmask_def Let_def)
qed

text \<open>
  Claim C2. A malformed value for one of the five flags gives the error code named for
  that flag, found by the pattern dash, flag name, colon in the parser's message; any
  other parse failure gives \<open>IncorrectCommandLineParameters\<close>. The code evaluated on
  three command lines: the malformed netmask \<open>255.255.255-0\<close> contains a dash, the
  regular expression \<open>-.*:\<close> starts its match inside the quoted value, and the handler
  returns \<open>IncorrectCommandLineParameters\<close> instead of \<open>MissingOrIncorrectNetworkMask\<close>;
  the undefined flag \<open>-netmask:\<close> is another parse failure, and the handler returns
  \<open>MissingOrIncorrectNetworkMask\<close>; the malformed netmask \<open>abc\<close> is classified as the
  claim says.
\<close>

theorem syncip_misclassifies_parse_errors:
  "map_option fst (handleMaintenanceSyncIP exampleEnv
      (exampleWorld [''rpc'', ''maintenance'', ''syncip'', ''-netmask'', ''255.255.255-0'']))
     = Some IncorrectCommandLineParameters
   \<and> map_option fst (handleMaintenanceSyncIP exampleEnv
      (exampleWorld [''rpc'', ''maintenance'', ''syncip'', ''-netmask:'']))
     = Some MissingOrIncorrectNetworkMask
   \<and> map_option fst (handleMaintenanceSyncIP exampleEnv
      (exampleWorld [''rpc'', ''maintenance'', ''syncip'', ''-netmask'', ''abc'']))
     = Some MissingOrIncorrectNetworkMask"
proof -
  have len: "\<not> length (commandLineArgs (flags (exampleWorld (''rpc'' # ''maintenance'' # ''syncip'' # xs)))) < 3"
    for xs by (simp add: exampleWorld_def)
  have args: "drop 3 (commandLineArgs (flags (exampleWorld (''rpc'' # ''maintenance'' # ''syncip'' # xs)))) = xs"
    for xs by (simp add: exampleWorld_def)
  have 1: "map_option fst (handleMaintenanceSyncIP exampleEnv
      (exampleWorld [''rpc'', ''maintenance'', ''syncip'', ''-netmask'', ''255.255.255-0'']))
     = Some IncorrectCommandLineParameters"
    using handleMaintenanceSyncIP_parse_error [OF example_syncIPFlags len,
        unfolded args, OF Parse_bad_netmask [OF ParseIP_bad_netmask]]
    by (simp only: syncIPErrorCode_bad_netmask option.map fst_conv)
  have 2: "map_option fst (handleMaintenanceSyncIP exampleEnv
      (exampleWorld [''rpc'', ''maintenance'', ''syncip'', ''-netmask:'']))
     = Some MissingOrIncorrectNetworkMask"
    using handleMaintenanceSyncIP_parse_error [OF example_syncIPFlags len,
        unfolded args, OF Parse_undefined_flag]
    by (simp only: syncIPErrorCode_undefined_flag option.map fst_conv)
  have 3: "map_option fst (handleMaintenanceSyncIP exampleEnv
      (exampleWorld [''rpc'', ''maintenance'', ''syncip'', ''-netmask'', ''abc'']))
     = Some MissingOrIncorrectNetworkMask"
    using handleMaintenanceSyncIP_parse_error [OF example_syncIPFlags len,
        unfolded args, OF Parse_bad_netmask [OF ParseIP_abc]]
    by (simp only: syncIPErrorCode_abc option.map fst_conv)
  from 1 2 3 show ?thesis by (intro conjI)
qed

text \<open>
  Claim C3. When the flags of \<open>syncip\<close> parse and the IP address is not empty
  afterwards, the handler returns \<open>Success\<close> at once with the state the parser left: no
  field is derived, the only effects are those of the flag package (so neither the engine
  client nor the network enumerator is called), and the result is the same whatever the
  engine and the operating system would have answered.
\<close>

theorem syncip_static_ip_is_returned_unchanged:
  assumes fs: "syncIPFlags (amtMaintenanceSyncIPCommand env) = Some fs"
    and len: "\<not> length (commandLineArgs (flags w)) < 3"
    and p: "Parse fs (drop 3 (commandLineArgs (flags w))) w = (None, w1)"
    and ip: "IpAddress (IpConfiguration (flags w1)) \<noteq> []"
  shows "handleMaintenanceSyncIP env w = Some (Success, w1)
     \<and> (\<exists>es. trace w1 = trace w @ es \<and> list_all (\<lambda>e. \<not> isEngineOrEnumeratorCall e) es)
     \<and> (\<forall>env'. amtMaintenanceSyncIPCommand env' = amtMaintenanceSyncIPCommand env
            \<longrightarrow> handleMaintenanceSyncIP env' w = Some (Success, w1))"
proof -
  have run: "handleMaintenanceSyncIP e w = Some (Success, w1)"
    if "amtMaintenanceSyncIPCommand e = amtMaintenanceSyncIPCommand env" for e
    using that fs len p ip by (simp add: handleMaintenanceSyncIP_def)
  from Parse_trace [OF p] obtain es where
    "trace w1 = trace w @ es" "list_all isFlagEvent es" by blast
  then have "\<exists>es. trace w1 = trace w @ es \<and> list_all (\<lambda>e. \<not> isEngineOrEnumeratorCall e) es"
    using isFlagEvent_not_call by blast
  with run show ?thesis by simp
qed

theorem syncip_static_ip_is_returned_unchanged_witness:
  "handleMaintenanceSyncIP brokenEngineEnv
     (exampleWorld [''rpc'', ''maintenance'', ''syncip'', ''-staticip=10.0.0.5''])
   = Some (Success,
       \<lparr>flags = (flags (exampleWorld [''rpc'', ''maintenance'', ''syncip'', ''-staticip=10.0.0.5'']))
          \<lparr>IpConfiguration :=
             \<lparr>IpAddress = ''10.0.0.5'', Netmask = [], Gateway = [], PrimaryDns = [],
              SecondaryDns = []\<rparr>\<rparr>,
        trace = []\<rparr>)"
proof -
  let ?w = "exampleWorld [''rpc'', ''maintenance'', ''syncip'', ''-staticip=10.0.0.5'']"
  let ?w1 = "?w\<lparr>flags := set_IpAddress ''10.0.0.5'' (flags ?w)\<rparr>"
  have fs: "syncIPFlags (amtMaintenanceSyncIPCommand brokenEngineEnv) = Some exampleSyncIPFlagSet"
    using example_syncIPFlags by (simp add: brokenEngineEnv_def exampleEnv_def)
  have len: "\<not> length (commandLineArgs (flags ?w)) < 3"
    by (simp add: exampleWorld_def)
  have p: "Parse exampleSyncIPFlagSet (drop 3 (commandLineArgs (flags ?w))) ?w = (None, ?w1)"
    by (simp add: exampleWorld_def Parse_staticip)
  have ip: "IpAddress (IpConfiguration (flags ?w1)) \<noteq> []"
    by simp
  from syncip_static_ip_is_returned_unchanged [OF fs len p ip]
  have "handleMaintenanceSyncIP brokenEngineEnv ?w = Some (Success, ?w1)" by simp
  then show ?thesis by (simp add: exampleWorld_def set_IpAddress_def)
qed

text \<open>
  Claim C4. With no static IP after parsing: when the engine's LAN settings query fails
  the handler returns \<open>AMTConnectionFailed\<close>; otherwise, when the enumeration of the
  interfaces fails, \<open>OSNetworkInterfacesLookupFailed\<close>; otherwise, when the scan ends with
  the IP address still empty, \<open>OSNetworkInterfacesLookupFailed\<close>, which is the case in
  particular when no interface has the engine's hardware address.
\<close>

theorem syncip_lookup_failures:
  assumes fs: "syncIPFlags (amtMaintenanceSyncIPCommand env) = Some fs"
    and len: "\<not> length (commandLineArgs (flags w)) < 3"
    and p: "Parse fs (drop 3 (commandLineArgs (flags w))) w = (None, w1)"
    and ip: "IpAddress (IpConfiguration (flags w1)) = []"
  shows "(snd (GetLANInterfaceSettings env False) \<noteq> None
          \<longrightarrow> (\<exists>w'. handleMaintenanceSyncIP env w = Some (AMTConnectionFailed, w')))
     \<and> (snd (GetLANInterfaceSettings env False) = None \<and> snd (Interfaces env) \<noteq> None
          \<longrightarrow> (\<exists>w'. handleMaintenanceSyncIP env w = Some (OSNetworkInterfacesLookupFailed, w')))
     \<and> (snd (GetLANInterfaceSettings env False) = None \<and> snd (Interfaces env) = None
          \<and> IpAddress (IpConfiguration (flags
               (scanInterfaces env None (MACAddress (fst (GetLANInterfaceSettings env False)))
                  (fst (Interfaces env))
                  (emit Call_Interfaces (emit (Call_GetLANInterfaceSettings False) w1))))) = []
          \<longrightarrow> (\<exists>w'. handleMaintenanceSyncIP env w = Some (OSNetworkInterfacesLookupFailed, w')))
     \<and> (snd (GetLANInterfaceSettings env False) = None \<and> snd (Interfaces env) = None
          \<and> list_all (\<lambda>i. HardwareAddr_String (HardwareAddr i)
                              \<noteq> MACAddress (fst (GetLANInterfaceSettings env False)))
               (fst (Interfaces env))
          \<longrightarrow> (\<exists>w'. handleMaintenanceSyncIP env w = Some (OSNetworkInterfacesLookupFailed, w')))"
proof -
  let ?mac = "MACAddress (fst (GetLANInterfaceSettings env False))"
  let ?w3 = "emit Call_Interfaces (emit (Call_GetLANInterfaceSettings False) w1)"
  have c1: "\<exists>w'. handleMaintenanceSyncIP env w = Some (AMTConnectionFailed, w')"
    if "snd (GetLANInterfaceSettings env False) \<noteq> None"
    using that fs len p ip
    by (auto simp: handleMaintenanceSyncIP_def Let_def split: prod.splits option.splits)
  have c2: "\<exists>w'. handleMaintenanceSyncIP env w = Some (OSNetworkInterfacesLookupFailed, w')"
    if "snd (GetLANInterfaceSettings env False) = None" "snd (Interfaces env) \<noteq> None"
    using that fs len p ip
    by (auto simp: handleMaintenanceSyncIP_def Let_def split: prod.splits option.splits)
  have c3: "\<exists>w'. handleMaintenanceSyncIP env w = Some (OSNetworkInterfacesLookupFailed, w')"
    if "snd (GetLANInterfaceSettings env False) = None" "snd (Interfaces env) = None"
      "IpAddress (IpConfiguration (flags (scanInterfaces env None ?mac (fst (Interfaces env)) ?w3))) = []"
    using that fs len p ip
    by (auto simp: handleMaintenanceSyncIP_def Let_def split: prod.splits option.splits)
  have c4: "\<exists>w'. handleMaintenanceSyncIP env w = Some (OSNetworkInterfacesLookupFailed, w')"
    if g: "snd (GetLANInterfaceSettings env False) = None" and i: "snd (Interfaces env) = None"
      and n: "list_all (\<lambda>i. HardwareAddr_String (HardwareAddr i) \<noteq> ?mac) (fst (Interfaces env))"
  proof -
    from n have "\<not> list_ex (matchingInterface env ?mac) (fst (Interfaces env))"
      by (auto simp: list_all_iff list_ex_iff matchingInterface_def)
    moreover have "IpAddress (IpConfiguration (flags ?w3)) = []" using ip by simp
    ultimately have "IpAddress (IpConfiguration (flags
        (scanInterfaces env None ?mac (fst (Interfaces env)) ?w3))) = []"
      by (simp add: scanInterfaces_unresolved)
    with g i show ?thesis by (rule c3)
  qed
  from c1 c2 c3 c4 show ?thesis by blast
qed

theorem syncip_lookup_failures_witness:
  "(\<exists>w'. handleMaintenanceSyncIP brokenEngineEnv (exampleWorld [''rpc'', ''maintenance'', ''syncip''])
          = Some (AMTConnectionFailed, w'))
   \<and> (\<exists>w'. handleMaintenanceSyncIP brokenEnumeratorEnv
              (exampleWorld [''rpc'', ''maintenance'', ''syncip''])
          = Some (OSNetworkInterfacesLookupFailed, w'))
   \<and> (\<exists>w'. handleMaintenanceSyncIP otherAdapterEnv
              (exampleWorld [''rpc'', ''maintenance'', ''syncip''])
          = Some (OSNetworkInterfacesLookupFailed, w'))"
proof -
  let ?w = "exampleWorld [''rpc'', ''maintenance'', ''syncip'']"
  have len: "\<not> length (commandLineArgs (flags ?w)) < 3" by (simp add: exampleWorld_def)
  have p: "Parse exampleSyncIPFlagSet (drop 3 (commandLineArgs (flags ?w))) ?w = (None, ?w)"
    by (simp add: exampleWorld_def Parse_nil)
  have ip: "IpAddress (IpConfiguration (flags ?w)) = []" by (simp add: exampleWorld_def)
  have fs1: "syncIPFlags (amtMaintenanceSyncIPCommand brokenEngineEnv) = Some exampleSyncIPFlagSet"
    using example_syncIPFlags by (simp add: brokenEngineEnv_def exampleEnv_def)
  have fs2: "syncIPFlags (amtMaintenanceSyncIPCommand brokenEnumeratorEnv) = Some exampleSyncIPFlagSet"
    using example_syncIPFlags by (simp add: brokenEnumeratorEnv_def exampleEnv_def)
  have fs3: "syncIPFlags (amtMaintenanceSyncIPCommand otherAdapterEnv) = Some exampleSyncIPFlagSet"
    using example_syncIPFlags by (simp add: otherAdapterEnv_def exampleEnv_def)
  have 1: "\<exists>w'. handleMaintenanceSyncIP brokenEngineEnv ?w = Some (AMTConnectionFailed, w')"
    using syncip_lookup_failures [OF fs1 len p ip] by (simp add: brokenEngineEnv_def)
  have 2: "\<exists>w'. handleMaintenanceSyncIP brokenEnumeratorEnv ?w
      = Some (OSNetworkInterfacesLookupFailed, w')"
    using syncip_lookup_failures [OF fs2 len p ip]
    by (simp add: brokenEnumeratorEnv_def exampleEnv_def)
  have 3: "\<exists>w'. handleMaintenanceSyncIP otherAdapterEnv ?w
      = Some (OSNetworkInterfacesLookupFailed, w')"
    using syncip_lookup_failures [OF fs3 len p ip]
    by (simp add: otherAdapterEnv_def exampleEnv_def exampleSettings_def exampleInterface_def
        example_HardwareAddr_String)
  from 1 2 3 show ?thesis by simp
qed

text \<open>
  Claim C5, as amended. After \<open>syncip\<close> has run (flag parsing, and derivation from the
  interface), every non-empty field of the IP configuration is a text that
  \<open>net.ParseIP\<close> accepts, an IPv4 or an IPv6 literal, provided the fields were so before,
  the other flags of the flag set do not write the IP configuration, and the masks of the
  addresses the resolver assigns have four bytes. The check is made at assignment: a
  value that \<open>net.ParseIP\<close> rejects is never assigned.
\<close>

theorem syncip_fields_are_ip_text:
  assumes others: "\<forall>name fv v f. formal (amtMaintenanceSyncIPCommand env) name = Some fv
        \<longrightarrow> IpConfiguration (snd (SetValue fv v f)) = IpConfiguration f"
    and masks: "\<forall>i. list_all hasIPv4Mask (fst (InterfaceAddrs env i))"
    and init: "fieldsAreIP (IpConfiguration (flags w))"
    and run: "handleMaintenanceSyncIP env w = Some (rc, w')"
  shows "fieldsAreIP (IpConfiguration (flags w'))
     \<and> (\<forall>assignee v f. ParseIP v = None \<longrightarrow> snd (validateIP assignee v f) = f)"
proof -
  from run obtain fs where fs: "syncIPFlags (amtMaintenanceSyncIPCommand env) = Some fs"
    by (auto simp: handleMaintenanceSyncIP_def split: option.splits)
  obtain err w1 where p: "Parse fs (drop 3 (commandLineArgs (flags w))) w = (err, w1)"
    by (metis prod.exhaust)
  have i1: "fieldsAreIP (IpConfiguration (flags w1))"
    using Parse_keeps_fieldsAreIP [OF fs others init, of "drop 3 (commandLineArgs (flags w))"] p
    by simp
  have i4: "fieldsAreIP (IpConfiguration (flags (scanInterfaces env None mac ifaces
      (emit Call_Interfaces (emit (Call_GetLANInterfaceSettings False) w1)))))" for mac ifaces
    using masks by (rule scanInterfaces_keeps_fieldsAreIP) (simp add: i1)
  from run fs p i1 i4 have "fieldsAreIP (IpConfiguration (flags w'))"
    by (auto simp: handleMaintenanceSyncIP_def Usage_def Let_def
        split: if_splits option.splits prod.splits)
  moreover have "\<forall>assignee v f. ParseIP v = None \<longrightarrow> snd (validateIP assignee v f) = f"
    by (simp add: validateIP_def)
  ultimately show ?thesis by simp
qed

theorem syncip_fields_are_ip_text_witness:
  "fieldsAreIP
     \<lparr>IpAddress = ''192.168.1.20'', Netmask = ''255.255.255.0'', Gateway = [],
      PrimaryDns = [], SecondaryDns = []\<rparr>
   \<and> snd (validateIP set_Gateway ''gateway.local''
        (flags (exampleWorld [''rpc'', ''maintenance'', ''syncip''])))
      = flags (exampleWorld [''rpc'', ''maintenance'', ''syncip''])"
proof -
  let ?v = "exampleWorld [''rpc'', ''maintenance'', ''syncip'']"
  have others: "\<forall>name fv v f. formal (amtMaintenanceSyncIPCommand exampleEnv) name = Some fv
        \<longrightarrow> IpConfiguration (snd (SetValue fv v f)) = IpConfiguration f"
    by (auto simp: exampleEnv_def exampleFlagSet_def stringValue_def set_URL_def
        set_Password_def split: if_splits)
  have masks: "\<forall>i. list_all hasIPv4Mask (fst (InterfaceAddrs exampleEnv i))"
    by (simp add: exampleEnv_def)
  have init: "fieldsAreIP (IpConfiguration (flags ?v))"
    by (simp add: fieldsAreIP_def configFields_def exampleWorld_def)
  have bad: "ParseIP ''gateway.local'' = None"
    by (simp add: ParseIP_def parseIPv4_def dtoi_def isDigit_def)
  note t = syncip_fields_are_ip_text [OF others masks init example_syncip_derives]
  from t [THEN conjunct1] have a: "fieldsAreIP
     \<lparr>IpAddress = ''192.168.1.20'', Netmask = ''255.255.255.0'', Gateway = [],
      PrimaryDns = [], SecondaryDns = []\<rparr>" by simp
  from t [THEN conjunct2, rule_format, OF bad]
  have b: "snd (validateIP set_Gateway ''gateway.local'' (flags ?v)) = flags ?v" .
  from a b show ?thesis by (intro conjI)
qed

text \<open>
  Claim C5, as stated, fails: \<open>validateIP\<close> asks \<open>net.ParseIP\<close>, which accepts IPv6
  literals. \<open>syncip -staticip ::1\<close> succeeds and leaves the IP address \<open>::1\<close>, which is
  not an IPv4 address.
\<close>

theorem syncip_accepts_ipv6_literal:
  "handleMaintenanceSyncIP exampleEnv
     (exampleWorld [''rpc'', ''maintenance'', ''syncip'', ''-staticip'', ''::1''])
   = Some (Success,
       \<lparr>flags = (flags (exampleWorld [''rpc'', ''maintenance'', ''syncip'', ''-staticip'', ''::1'']))
          \<lparr>IpConfiguration :=
             \<lparr>IpAddress = ''::1'', Netmask = [], Gateway = [], PrimaryDns = [],
              SecondaryDns = []\<rparr>\<rparr>,
        trace = []\<rparr>)
   \<and> \<not> fieldsAreIPv4
        \<lparr>IpAddress = ''::1'', Netmask = [], Gateway = [], PrimaryDns = [], SecondaryDns = []\<rparr>
   \<and> fieldsAreIPv4 (IpConfiguration (flags
        (exampleWorld [''rpc'', ''maintenance'', ''syncip'', ''-staticip'', ''::1''])))"
proof -
  have 1: "handleMaintenanceSyncIP exampleEnv
     (exampleWorld [''rpc'', ''maintenance'', ''syncip'', ''-staticip'', ''::1''])
   = Some (Success,
       \<lparr>flags = (flags (exampleWorld [''rpc'', ''maintenance'', ''syncip'', ''-staticip'', ''::1'']))
          \<lparr>IpConfiguration :=
             \<lparr>IpAddress = ''::1'', Netmask = [], Gateway = [], PrimaryDns = [],
              SecondaryDns = []\<rparr>\<rparr>,
        trace = []\<rparr>)"
    unfolding handleMaintenanceSyncIP_def example_syncIPFlags
    by (simp add: exampleWorld_def Parse_staticip_loopback6 set_IpAddress_def)
  have 2: "\<not> fieldsAreIPv4
        \<lparr>IpAddress = ''::1'', Netmask = [], Gateway = [], PrimaryDns = [], SecondaryDns = []\<rparr>"
    by (simp add: fieldsAreIPv4_def configFields_def isIPv4Text_def ParseIP_loopback6 To4_def
        IPv6loopback_def v4InV6Prefix_def)
  have 3: "fieldsAreIPv4 (IpConfiguration (flags
        (exampleWorld [''rpc'', ''maintenance'', ''syncip'', ''-staticip'', ''::1''])))"
    by (simp add: fieldsAreIPv4_def configFields_def exampleWorld_def)
  from 1 2 3 show ?thesis by (intro conjI)
qed

text \<open>
  Claim C6. When no sub-command name is present (the arguments are the program name and
  \<open>maintenance\<close> only), and when the name is none of \<open>syncclock\<close>, \<open>synchostname\<close>,
  \<open>syncip\<close>, \<open>changepassword\<close>, \<open>syncdeviceinfo\<close>, the dispatcher returns
  \<open>IncorrectCommandLineParameters\<close>; the usage message is the only effect (so no
  sub-handler is invoked), and nothing but \<open>SubCommand\<close> is written.
\<close>

theorem dispatch_rejects_missing_or_unknown_subcommand:
  assumes "length (commandLineArgs (flags w)) = 2
     \<or> (2 < length (commandLineArgs (flags w)) \<and> commandLineArgs (flags w) ! 2 \<notin> set subCommands)"
  shows "\<exists>w'. handleMaintenanceCommand env w = Some (IncorrectCommandLineParameters, w')
     \<and> trace w' = trace w @ [PrintMaintenanceUsage]
     \<and> flags w' = (if length (commandLineArgs (flags w)) = 2 then flags w
                   else (flags w)\<lparr>SubCommand := commandLineArgs (flags w) ! 2\<rparr>)"
  using assms
  by (auto simp: handleMaintenanceCommand_def runSubCommand_def printMaintenanceUsage_def
      subCommands_def Let_def)

theorem dispatch_rejects_missing_or_unknown_subcommand_witness:
  "handleMaintenanceCommand exampleEnv (exampleWorld [''rpc'', ''maintenance''])
     = Some (IncorrectCommandLineParameters,
             (exampleWorld [''rpc'', ''maintenance''])\<lparr>trace := [PrintMaintenanceUsage]\<rparr>)
   \<and> handleMaintenanceCommand exampleEnv (exampleWorld [''rpc'', ''maintenance'', ''reboot''])
     = Some (IncorrectCommandLineParameters,
             (exampleWorld [''rpc'', ''maintenance'', ''reboot''])
               \<lparr>flags := (flags (exampleWorld [''rpc'', ''maintenance'', ''reboot'']))
                           \<lparr>SubCommand := ''reboot''\<rparr>,
                trace := [PrintMaintenanceUsage]\<rparr>)"
proof -
  have a: "length (commandLineArgs (flags (exampleWorld [''rpc'', ''maintenance'']))) = 2"
    by (simp add: exampleWorld_def)
  have b: "2 < length (commandLineArgs (flags (exampleWorld [''rpc'', ''maintenance'', ''reboot''])))
      \<and> commandLineArgs (flags (exampleWorld [''rpc'', ''maintenance'', ''reboot''])) ! 2
          \<notin> set subCommands"
    by (simp add: exampleWorld_def subCommands_def)
  from dispatch_rejects_missing_or_unknown_subcommand [OF disjI1 [OF a], of exampleEnv]
  have 1: "handleMaintenanceCommand exampleEnv (exampleWorld [''rpc'', ''maintenance''])
     = Some (IncorrectCommandLineParameters,
             (exampleWorld [''rpc'', ''maintenance''])\<lparr>trace := [PrintMaintenanceUsage]\<rparr>)"
    by (auto simp: exampleWorld_def)
  from dispatch_rejects_missing_or_unknown_subcommand [OF disjI2 [OF b], of exampleEnv]
  have 2: "handleMaintenanceCommand exampleEnv (exampleWorld [''rpc'', ''maintenance'', ''reboot''])
     = Some (IncorrectCommandLineParameters,
             (exampleWorld [''rpc'', ''maintenance'', ''reboot''])
               \<lparr>flags := (flags (exampleWorld [''rpc'', ''maintenance'', ''reboot'']))
                           \<lparr>SubCommand := ''reboot''\<rparr>,
                trace := [PrintMaintenanceUsage]\<rparr>)"
    by (auto simp: exampleWorld_def)
  from 1 2 show ?thesis by simp
qed

text \<open>
  Claim C7. When the selected sub-handler returns a code other than \<open>Success\<close>, the
  dispatcher returns that code and the state the sub-handler left, and nothing of the
  shared precondition checks has happened: no password prompt, no message of the URL
  check.
\<close>

theorem dispatch_short_circuits_on_handler_failure:
  assumes "2 < length (commandLineArgs (flags w))"
    and "runSubCommand env (w\<lparr>flags := (flags w)\<lparr>SubCommand := commandLineArgs (flags w) ! 2\<rparr>\<rparr>)
           = Some (rc, w')"
    and "rc \<noteq> Success"
  shows "handleMaintenanceCommand env w = Some (rc, w')
     \<and> (\<exists>es. trace w' = trace w @ es \<and> noPreconditionEvent es)"
proof -
  from assms have "handleMaintenanceCommand env w = Some (rc, w')"
    by (simp add: handleMaintenanceCommand_def Let_def)
  moreover from runSubCommand_quiet [OF assms(2)]
  have "\<exists>es. trace w' = trace w @ es \<and> noPreconditionEvent es" by simp
  ultimately show ?thesis by simp
qed

theorem dispatch_short_circuits_on_handler_failure_witness:
  "handleMaintenanceCommand failingHostnameEnv
     (exampleWorld [''rpc'', ''maintenance'', ''synchostname''])
   = Some (OSNetworkInterfacesLookupFailed,
       \<lparr>flags = (flags (exampleWorld [''rpc'', ''maintenance'', ''synchostname'']))
          \<lparr>SubCommand := ''synchostname'',
           HostnameInfo := \<lparr>DnsSuffixOS = ''corp.example'', Hostname = []\<rparr>\<rparr>,
        trace = [Invoke ''synchostname'', Call_GetOSDNSSuffix, Call_Hostname,
                 LogError ''OS hostname is not available'']\<rparr>)"
proof -
  have len: "2 < length (commandLineArgs
      (flags (exampleWorld [''rpc'', ''maintenance'', ''synchostname''])))"
    by (simp add: exampleWorld_def)
  have arg: "commandLineArgs (flags (exampleWorld [''rpc'', ''maintenance'', ''synchostname''])) ! 2
      = ''synchostname''"
    by (simp add: exampleWorld_def)
  have ne: "OSNetworkInterfacesLookupFailed \<noteq> Success" by simp
  have run: "runSubCommand failingHostnameEnv
     ((exampleWorld [''rpc'', ''maintenance'', ''synchostname''])
        \<lparr>flags := (flags (exampleWorld [''rpc'', ''maintenance'', ''synchostname'']))
                    \<lparr>SubCommand := commandLineArgs
                       (flags (exampleWorld [''rpc'', ''maintenance'', ''synchostname''])) ! 2\<rparr>\<rparr>)
   = Some (OSNetworkInterfacesLookupFailed,
       \<lparr>flags = (flags (exampleWorld [''rpc'', ''maintenance'', ''synchostname'']))
          \<lparr>SubCommand := ''synchostname'',
           HostnameInfo := \<lparr>DnsSuffixOS = ''corp.example'', Hostname = []\<rparr>\<rparr>,
        trace = [Invoke ''synchostname'', Call_GetOSDNSSuffix, Call_Hostname,
                 LogError ''OS hostname is not available'']\<rparr>)"
    unfolding arg by (rule example_synchostname_fails)
  from dispatch_short_circuits_on_handler_failure [OF len run ne]
  show ?thesis by simp
qed

text \<open>
  Claim C8. When the flags of \<open>synchostname\<close> parse: if the OS hostname accessor fails
  or returns the empty text, the handler returns \<open>OSNetworkInterfacesLookupFailed\<close>; the
  outcome of the DNS suffix read does not change the return code, and its error is logged;
  and the dispatcher, called with \<open>synchostname\<close>, returns the handler's code without
  any precondition check.
\<close>

theorem synchostname_hostname_failure:
  assumes len: "\<not> length (commandLineArgs (flags w)) < 3"
    and p: "Parse (amtMaintenanceSyncHostnameCommand env) (drop 3 (commandLineArgs (flags w))) w
              = (None, w1)"
  shows "(snd (os_Hostname env) \<noteq> None \<or> fst (os_Hostname env) = []
            \<longrightarrow> (\<exists>w'. handleMaintenanceSyncHostname env w
                        = Some (OSNetworkInterfacesLookupFailed, w')))
     \<and> (\<forall>d. map_option fst (handleMaintenanceSyncHostname (env\<lparr>GetOSDNSSuffix := d\<rparr>) w)
              = map_option fst (handleMaintenanceSyncHostname env w))
     \<and> (\<forall>e. snd (GetOSDNSSuffix env) = Some e
            \<longrightarrow> (\<exists>rc w'. handleMaintenanceSyncHostname env w = Some (rc, w')
                   \<and> LogError e \<in> set (trace w')))
     \<and> (\<forall>v. 2 < length (commandLineArgs (flags v))
            \<and> commandLineArgs (flags v) ! 2 = ''synchostname''
            \<and> w = emit (Invoke ''synchostname'')
                     (v\<lparr>flags := (flags v)\<lparr>SubCommand := ''synchostname''\<rparr>\<rparr>)
            \<and> (snd (os_Hostname env) \<noteq> None \<or> fst (os_Hostname env) = [])
            \<longrightarrow> (\<exists>w'. handleMaintenanceCommand env v = Some (OSNetworkInterfacesLookupFailed, w')
                   \<and> (\<exists>es. trace w' = trace v @ es \<and> noPreconditionEvent es)))"
proof -
  have a: "\<exists>w'. handleMaintenanceSyncHostname env w = Some (OSNetworkInterfacesLookupFailed, w')"
    if "snd (os_Hostname env) \<noteq> None \<or> fst (os_Hostname env) = []"
    using that len p
    by (auto simp: handleMaintenanceSyncHostname_def Let_def set_Hostname_def
        split: option.splits)
  have b: "map_option fst (handleMaintenanceSyncHostname (env\<lparr>GetOSDNSSuffix := d\<rparr>) w)
      = map_option fst (handleMaintenanceSyncHostname env w)" for d
    using len p
    by (auto simp: handleMaintenanceSyncHostname_def Let_def set_Hostname_def
        set_DnsSuffixOS_def split: option.splits)
  have c: "\<exists>rc w'. handleMaintenanceSyncHostname env w = Some (rc, w') \<and> LogError e \<in> set (trace w')"
    if "snd (GetOSDNSSuffix env) = Some e" for e
    using that len p
    by (auto simp: handleMaintenanceSyncHostname_def Let_def split: option.splits)
  have d: "\<exists>w'. handleMaintenanceCommand env w0 = Some (OSNetworkInterfacesLookupFailed, w')
      \<and> (\<exists>es. trace w' = trace w0 @ es \<and> noPreconditionEvent es)"
    if l: "2 < length (commandLineArgs (flags w0))"
      and n: "commandLineArgs (flags w0) ! 2 = ''synchostname''"
      and w: "w = emit (Invoke ''synchostname'')
                     (w0\<lparr>flags := (flags w0)\<lparr>SubCommand := ''synchostname''\<rparr>\<rparr>)"
      and h: "snd (os_Hostname env) \<noteq> None \<or> fst (os_Hostname env) = []" for w0
  proof -
    from a [OF h] obtain w' where
      r: "handleMaintenanceSyncHostname env w = Some (OSNetworkInterfacesLookupFailed, w')"
      by blast
    have run: "runSubCommand env
        (w0\<lparr>flags := (flags w0)\<lparr>SubCommand := commandLineArgs (flags w0) ! 2\<rparr>\<rparr>)
        = Some (OSNetworkInterfacesLookupFailed, w')"
      using r n w by (simp add: runSubCommand_def)
    then have "handleMaintenanceCommand env w0 = Some (OSNetworkInterfacesLookupFailed, w')"
      using l by (simp add: handleMaintenanceCommand_def Let_def)
    moreover from runSubCommand_quiet [OF run]
    have "\<exists>es. trace w' = trace w0 @ es \<and> noPreconditionEvent es" by simp
    ultimately show ?thesis by blast
  qed
  from a b c d show ?thesis by blast
qed

theorem synchostname_hostname_failure_witness:
  "(\<exists>w'. handleMaintenanceSyncHostname noSuffixNoHostnameEnv
            (emit (Invoke ''synchostname'')
              ((exampleWorld [''rpc'', ''maintenance'', ''synchostname''])
                 \<lparr>flags := (flags (exampleWorld [''rpc'', ''maintenance'', ''synchostname'']))
                    \<lparr>SubCommand := ''synchostname''\<rparr>\<rparr>))
          = Some (OSNetworkInterfacesLookupFailed, w')
        \<and> LogError ''no dns suffix'' \<in> set (trace w'))
   \<and> (\<exists>w'. handleMaintenanceCommand noSuffixNoHostnameEnv
              (exampleWorld [''rpc'', ''maintenance'', ''synchostname''])
          = Some (OSNetworkInterfacesLookupFailed, w')
        \<and> (\<exists>es. trace w' = es \<and> noPreconditionEvent es))
   \<and> map_option fst (handleMaintenanceSyncHostname
          (noSuffixNoHostnameEnv\<lparr>GetOSDNSSuffix := (''corp.example'', None)\<rparr>)
            (emit (Invoke ''synchostname'')
              ((exampleWorld [''rpc'', ''maintenance'', ''synchostname''])
                 \<lparr>flags := (flags (exampleWorld [''rpc'', ''maintenance'', ''synchostname'']))
                    \<lparr>SubCommand := ''synchostname''\<rparr>\<rparr>)))
       = Some OSNetworkInterfacesLookupFailed"
proof -
  let ?v = "exampleWorld [''rpc'', ''maintenance'', ''synchostname'']"
  let ?w = "emit (Invoke ''synchostname'')
              (?v\<lparr>flags := (flags ?v)\<lparr>SubCommand := ''synchostname''\<rparr>\<rparr>)"
  have len: "\<not> length (commandLineArgs (flags ?w)) < 3" by (simp add: exampleWorld_def)
  have p: "Parse (amtMaintenanceSyncHostnameCommand noSuffixNoHostnameEnv)
             (drop 3 (commandLineArgs (flags ?w))) ?w = (None, ?w)"
    by (simp add: exampleWorld_def Parse_nil)
  have h: "snd (os_Hostname noSuffixNoHostnameEnv) \<noteq> None
      \<or> fst (os_Hostname noSuffixNoHostnameEnv) = []"
    by (simp add: noSuffixNoHostnameEnv_def)
  have s: "snd (GetOSDNSSuffix noSuffixNoHostnameEnv) = Some ''no dns suffix''"
    by (simp add: noSuffixNoHostnameEnv_def)
  have l0: "2 < length (commandLineArgs (flags ?v))
      \<and> commandLineArgs (flags ?v) ! 2 = ''synchostname''"
    by (simp add: exampleWorld_def)
  note t = synchostname_hostname_failure [OF len p]
  note t1 = t [THEN conjunct1, rule_format]
  note t2 = t [THEN conjunct2, THEN conjunct1, rule_format]
  note t3 = t [THEN conjunct2, THEN conjunct2, THEN conjunct1, rule_format]
  note t4 = t [THEN conjunct2, THEN conjunct2, THEN conjunct2, rule_format]
  from t1 [OF h] obtain w1 where
    1: "handleMaintenanceSyncHostname noSuffixNoHostnameEnv ?w
          = Some (OSNetworkInterfacesLookupFailed, w1)" by blast
  from t3 [OF s] obtain rc w2 where
    2: "handleMaintenanceSyncHostname noSuffixNoHostnameEnv ?w = Some (rc, w2)"
      "LogError ''no dns suffix'' \<in> set (trace w2)" by blast
  from 1 2 have a: "\<exists>w'. handleMaintenanceSyncHostname noSuffixNoHostnameEnv ?w
        = Some (OSNetworkInterfacesLookupFailed, w')
      \<and> LogError ''no dns suffix'' \<in> set (trace w')" by simp
  have "\<exists>w'. handleMaintenanceCommand noSuffixNoHostnameEnv ?v
        = Some (OSNetworkInterfacesLookupFailed, w')
      \<and> (\<exists>es. trace w' = trace ?v @ es \<and> noPreconditionEvent es)"
    by (rule t4 [where v = ?v]) (use l0 h in simp)
  then have b: "\<exists>w'. handleMaintenanceCommand noSuffixNoHostnameEnv ?v
        = Some (OSNetworkInterfacesLookupFailed, w')
      \<and> (\<exists>es. trace w' = es \<and> noPreconditionEvent es)"
    by (simp add: exampleWorld_def)
  have "map_option fst (handleMaintenanceSyncHostname
        (noSuffixNoHostnameEnv\<lparr>GetOSDNSSuffix := (''corp.example'', None)\<rparr>) ?w)
      = map_option fst (handleMaintenanceSyncHostname noSuffixNoHostnameEnv ?w)" by (rule t2)
  with 1 have c: "map_option fst (handleMaintenanceSyncHostname
        (noSuffixNoHostnameEnv\<lparr>GetOSDNSSuffix := (''corp.example'', None)\<rparr>) ?w)
      = Some OSNetworkInterfacesLookupFailed" by simp
  from a b c show ?thesis by (intro conjI)
qed

text \<open>
  Claim C9. The error of \<open>InterfaceAddrs\<close> is discarded: the handler's result, effects
  included, is the same whatever error the call returns with its addresses (the variable
  tested after the call is the error of \<open>Interfaces\<close>, which is \<open>nil\<close> there). A matching
  interface whose call fails and returns no address contributes nothing, and the scan goes
  on with the next interface. When every matching interface fails so, the handler returns
  \<open>OSNetworkInterfacesLookupFailed\<close>, and the only line it logs is that no address was
  found.
\<close>

theorem syncip_discards_InterfaceAddrs_error:
  "handleMaintenanceSyncIP (env\<lparr>InterfaceAddrs := (\<lambda>i. (fst (InterfaceAddrs env i), x i))\<rparr>) w
     = handleMaintenanceSyncIP env w
   \<and> (IpAddress (IpConfiguration (flags w)) = []
        \<and> HardwareAddr_String (HardwareAddr i) = mac
        \<and> fst (InterfaceAddrs env i) = [] \<and> snd (InterfaceAddrs env i) \<noteq> None
      \<longrightarrow> scanInterfaces env None mac (i # rest) w
            = scanInterfaces env None mac rest (emit (Call_InterfaceAddrs i) w))
   \<and> (syncIPFlags (amtMaintenanceSyncIPCommand env) = Some fs
        \<and> \<not> length (commandLineArgs (flags w)) < 3
        \<and> Parse fs (drop 3 (commandLineArgs (flags w))) w = (None, w1)
        \<and> IpAddress (IpConfiguration (flags w1)) = []
        \<and> snd (GetLANInterfaceSettings env False) = None \<and> snd (Interfaces env) = None
        \<and> list_all (\<lambda>i. HardwareAddr_String (HardwareAddr i)
                            \<noteq> MACAddress (fst (GetLANInterfaceSettings env False))
                          \<or> (fst (InterfaceAddrs env i) = [] \<and> snd (InterfaceAddrs env i) \<noteq> None))
             (fst (Interfaces env))
      \<longrightarrow> (\<exists>w'. handleMaintenanceSyncIP env w = Some (OSNetworkInterfacesLookupFailed, w')
             \<and> (\<forall>e. LogError e \<in> set (trace w') \<longrightarrow> LogError e \<in> set (trace w1)
                   \<or> e = ''static ip address not found'')))"
proof -
  let ?env' = "env\<lparr>InterfaceAddrs := (\<lambda>i. (fst (InterfaceAddrs env i), x i))\<rparr>"
  have a: "handleMaintenanceSyncIP ?env' w = handleMaintenanceSyncIP env w"
    by (auto simp: handleMaintenanceSyncIP_def scanInterfaces_ignores_error Let_def
        split: option.splits prod.splits)
  have b: "scanInterfaces env None mac (i # rest) w
      = scanInterfaces env None mac rest (emit (Call_InterfaceAddrs i) w)"
    if "IpAddress (IpConfiguration (flags w)) = []" "HardwareAddr_String (HardwareAddr i) = mac"
      "fst (InterfaceAddrs env i) = []"
    using that by (simp add: Let_def emit_def)
  have c: "\<exists>w'. handleMaintenanceSyncIP env w = Some (OSNetworkInterfacesLookupFailed, w')
      \<and> (\<forall>e. LogError e \<in> set (trace w') \<longrightarrow> LogError e \<in> set (trace w1)
            \<or> e = ''static ip address not found'')"
    if fs: "syncIPFlags (amtMaintenanceSyncIPCommand env) = Some fs"
      and len: "\<not> length (commandLineArgs (flags w)) < 3"
      and p: "Parse fs (drop 3 (commandLineArgs (flags w))) w = (None, w1)"
      and ip: "IpAddress (IpConfiguration (flags w1)) = []"
      and g: "snd (GetLANInterfaceSettings env False) = None"
      and n: "snd (Interfaces env) = None"
      and f: "list_all (\<lambda>i. HardwareAddr_String (HardwareAddr i)
                            \<noteq> MACAddress (fst (GetLANInterfaceSettings env False))
                          \<or> (fst (InterfaceAddrs env i) = [] \<and> snd (InterfaceAddrs env i) \<noteq> None))
             (fst (Interfaces env))"
  proof -
    let ?mac = "MACAddress (fst (GetLANInterfaceSettings env False))"
    let ?w3 = "emit Call_Interfaces (emit (Call_GetLANInterfaceSettings False) w1)"
    let ?w4 = "scanInterfaces env None ?mac (fst (Interfaces env)) ?w3"
    from f have "\<not> list_ex (matchingInterface env ?mac) (fst (Interfaces env))"
      by (auto simp: list_all_iff list_ex_iff matchingInterface_def)
    moreover have "IpAddress (IpConfiguration (flags ?w3)) = []" using ip by simp
    ultimately have un: "IpAddress (IpConfiguration (flags ?w4)) = []"
      by (simp add: scanInterfaces_unresolved)
    have run: "handleMaintenanceSyncIP env w
        = Some (OSNetworkInterfacesLookupFailed, emit (LogError ''static ip address not found'') ?w4)"
      using fs len p ip g n un
      by (auto simp: handleMaintenanceSyncIP_def Let_def split: prod.splits option.splits)
    have "\<forall>e. LogError e \<in> set (trace ?w4) \<longrightarrow> LogError e \<in> set (trace w1)"
      by (simp add: scanInterfaces_LogError)
    with run show ?thesis by auto
  qed
  from a b c show ?thesis by blast
qed

theorem syncip_discards_InterfaceAddrs_error_witness:
  "(\<exists>w'. handleMaintenanceSyncIP addrsFailEnv (exampleWorld [''rpc'', ''maintenance'', ''syncip''])
          = Some (OSNetworkInterfacesLookupFailed, w')
        \<and> LogError ''permission denied'' \<notin> set (trace w'))
   \<and> handleMaintenanceSyncIP (addrsFailEnv\<lparr>InterfaceAddrs := (\<lambda>i. ([], None))\<rparr>)
         (exampleWorld [''rpc'', ''maintenance'', ''syncip''])
       = handleMaintenanceSyncIP addrsFailEnv (exampleWorld [''rpc'', ''maintenance'', ''syncip''])"
proof -
  let ?v = "exampleWorld [''rpc'', ''maintenance'', ''syncip'']"
  note t = syncip_discards_InterfaceAddrs_error
    [where env = addrsFailEnv and w = ?v and ?w1.0 = ?v and fs = exampleSyncIPFlagSet
       and x = "\<lambda>i. None"]
  have fs: "syncIPFlags (amtMaintenanceSyncIPCommand addrsFailEnv) = Some exampleSyncIPFlagSet"
    using example_syncIPFlags by (simp add: addrsFailEnv_def exampleEnv_def)
  have len: "\<not> length (commandLineArgs (flags ?v)) < 3" by (simp add: exampleWorld_def)
  have p: "Parse exampleSyncIPFlagSet (drop 3 (commandLineArgs (flags ?v))) ?v = (None, ?v)"
    by (simp add: exampleWorld_def Parse_nil)
  have ip: "IpAddress (IpConfiguration (flags ?v)) = []" by (simp add: exampleWorld_def)
  have g: "snd (GetLANInterfaceSettings addrsFailEnv False) = None \<and> snd (Interfaces addrsFailEnv) = None"
    by (simp add: addrsFailEnv_def exampleEnv_def)
  have f: "list_all (\<lambda>i. HardwareAddr_String (HardwareAddr i)
                            \<noteq> MACAddress (fst (GetLANInterfaceSettings addrsFailEnv False))
                          \<or> (fst (InterfaceAddrs addrsFailEnv i) = []
                              \<and> snd (InterfaceAddrs addrsFailEnv i) \<noteq> None))
             (fst (Interfaces addrsFailEnv))"
    by (simp add: addrsFailEnv_def exampleEnv_def)
  from t [THEN conjunct2, THEN conjunct2, rule_format] fs len p ip g f
  obtain w' where r: "handleMaintenanceSyncIP addrsFailEnv ?v
        = Some (OSNetworkInterfacesLookupFailed, w')"
    and l: "\<And>e. LogError e \<in> set (trace w') \<Longrightarrow> LogError e \<in> set (trace ?v)
        \<or> e = ''static ip address not found''"
    by blast
  from l [of "''permission denied''"] have "LogError ''permission denied'' \<notin> set (trace w')"
    by (auto simp: exampleWorld_def)
  with r have a: "\<exists>w'. handleMaintenanceSyncIP addrsFailEnv ?v
        = Some (OSNetworkInterfacesLookupFailed, w')
      \<and> LogError ''permission denied'' \<notin> set (trace w')" by blast
  from t [THEN conjunct1]
  have b: "handleMaintenanceSyncIP (addrsFailEnv\<lparr>InterfaceAddrs := (\<lambda>i. ([], None))\<rparr>) ?v
       = handleMaintenanceSyncIP addrsFailEnv ?v"
    by (simp add: addrsFailEnv_def)
  from a b show ?thesis by (intro conjI)
qed

text \<open>
  Claim C10. When the sub-handler succeeds and a credential is available (given, or
  obtained by the prompt), the dispatcher copies it into the local configuration before it
  checks the URL: whatever the outcome of that check, the password of the local
  configuration is the resolved credential. So a run that is not local and has no URL
  returns \<open>MissingOrIncorrectURL\<close> with the local configuration already written.
\<close>

theorem dispatch_copies_password_before_url_check:
  assumes "2 < length (commandLineArgs (flags w))"
    and "runSubCommand env (w\<lparr>flags := (flags w)\<lparr>SubCommand := commandLineArgs (flags w) ! 2\<rparr>\<rparr>)
           = Some (Success, w2)"
    and "Password (flags w2) \<noteq> [] \<or> snd (fst (ReadPasswordFromUser env (flags w2))) = 0"
  shows "let f3 = (if Password (flags w2) = [] then snd (ReadPasswordFromUser env (flags w2))
                   else flags w2)
         in \<exists>rc w'. handleMaintenanceCommand env w = Some (rc, w')
              \<and> LocalConfig_Password (flags w') = Password f3
              \<and> rc = (if \<not> Local f3 \<and> URL f3 = [] then MissingOrIncorrectURL else Success)"
  using assms
  by (auto simp: handleMaintenanceCommand_def checkPasswordAndURL_def Let_def
      printMaintenanceUsage_def emit_def split: prod.splits)

theorem dispatch_copies_password_before_url_check_witness:
  "\<exists>w'. handleMaintenanceCommand exampleEnv (exampleWorld [''rpc'', ''maintenance'', ''syncclock''])
          = Some (MissingOrIncorrectURL, w')
      \<and> LocalConfig_Password (flags w') = ''secret''
      \<and> LocalConfig_Password (flags (exampleWorld [''rpc'', ''maintenance'', ''syncclock''])) = []"
proof -
  let ?w = "exampleWorld [''rpc'', ''maintenance'', ''syncclock'']"
  let ?w2 = "\<lparr>flags = (flags ?w)\<lparr>SubCommand := ''syncclock''\<rparr>, trace = [Invoke ''syncclock'']\<rparr>"
  have len: "2 < length (commandLineArgs (flags ?w))" by (simp add: exampleWorld_def)
  have cred: "Password (flags ?w2) \<noteq> []
      \<or> snd (fst (ReadPasswordFromUser exampleEnv (flags ?w2))) = 0"
    by (simp add: exampleEnv_def)
  from dispatch_copies_password_before_url_check [OF len example_syncclock_succeeds cred]
  show ?thesis
    by (simp add: exampleEnv_def exampleWorld_def Let_def)
qed

end
